theory Spec2Isabelle
  imports Complex_Main "HOL-Library.AList"
begin

section \<open>Market timings (src/utils/market-timings.ts)\<close>

text \<open>
  The session oracle reads the system clock through a JavaScript \<^verbatim>\<open>Date\<close> object
  \<^verbatim>\<open>istTime\<close>. The source consults that object through three methods only; the record
  below holds what they return. \<open>timeString\<close> is \<^verbatim>\<open>istTime.toTimeString()\<close>
  (local wall-clock time, \<^verbatim>\<open>HH:MM:SS GMT...\<close>), \<open>isoString\<close> is
  \<^verbatim>\<open>istTime.toISOString()\<close> and \<open>day\<close> is \<^verbatim>\<open>istTime.getDay()\<close>
  (0 = Sunday, 6 = Saturday).
\<close>

record IstTime =
  timeString :: string
  isoString :: string
  day :: nat

record MarketSession =
  session_name :: string
  session_start :: string
  session_end :: string

record MarketTimings =
  preMarket :: "MarketSession option"
  normal :: MarketSession
  postMarket :: "MarketSession option"

datatype MarketType = Equity | Currency | Commodity | Gsec | Bonds

fun MARKET_TIMINGS :: "MarketType \<Rightarrow> MarketTimings" where
  "MARKET_TIMINGS Equity =
     \<lparr>preMarket = Some \<lparr>session_name = ''Pre-market'', session_start = ''09:00'', session_end = ''09:15''\<rparr>,
      normal = \<lparr>session_name = ''Normal'', session_start = ''09:15'', session_end = ''15:30''\<rparr>,
      postMarket = Some \<lparr>session_name = ''Post-market'', session_start = ''15:30'', session_end = ''16:00''\<rparr>\<rparr>"
| "MARKET_TIMINGS Currency =
     \<lparr>preMarket = None,
      normal = \<lparr>session_name = ''Normal'', session_start = ''09:00'', session_end = ''17:00''\<rparr>,
      postMarket = None\<rparr>"
| "MARKET_TIMINGS Commodity =
     \<lparr>preMarket = None,
      normal = \<lparr>session_name = ''Normal'', session_start = ''09:00'', session_end = ''23:30''\<rparr>,
      postMarket = None\<rparr>"
| "MARKET_TIMINGS Gsec =
     \<lparr>preMarket = None,
      normal = \<lparr>session_name = ''Normal'', session_start = ''09:00'', session_end = ''17:00''\<rparr>,
      postMarket = None\<rparr>"
| "MARKET_TIMINGS Bonds =
     \<lparr>preMarket = None,
      normal = \<lparr>session_name = ''Normal'', session_start = ''09:00'', session_end = ''17:00''\<rparr>,
      postMarket = None\<rparr>"

fun marketTypeName :: "MarketType \<Rightarrow> string" where
  "marketTypeName Equity = ''equity''"
| "marketTypeName Currency = ''currency''"
| "marketTypeName Commodity = ''commodity''"
| "marketTypeName Gsec = ''gsec''"
| "marketTypeName Bonds = ''bonds''"

definition MARKET_HOLIDAYS_2024 :: "string list" where
  "MARKET_HOLIDAYS_2024 =
     [''2024-01-26'', ''2024-03-08'', ''2024-03-29'', ''2024-04-11'', ''2024-04-17'',
      ''2024-05-01'', ''2024-06-17'', ''2024-08-15'', ''2024-08-26'', ''2024-10-02'',
      ''2024-10-31'', ''2024-11-01'', ''2024-11-15'']"

record MarketStatus =
  isOpen :: bool
  session :: string
  reason :: string
  nextOpenTime :: "string option"
  sessionEnd :: "string option"

text \<open>\<^verbatim>\<open>s.split(c)\<close> for a one-character separator.\<close>

fun split_on :: "char \<Rightarrow> string \<Rightarrow> string list" where
  "split_on c [] = [[]]"
| "split_on c (x # xs) =
     (if x = c then [] # split_on c xs
      else (case split_on c xs of [] \<Rightarrow> [[x]] | p # ps \<Rightarrow> (x # p) # ps))"

text \<open>The value of a decimal digit, by its character code (48 to 57).\<close>

definition digit_val :: "char \<Rightarrow> nat option" where
  "digit_val c =
     (let n = (of_char c :: nat) in if 48 \<le> n \<and> n \<le> 57 then Some (n - 48) else None)"

text \<open>
  \<^verbatim>\<open>Number(s)\<close> on the strings this module hands it: a run of decimal digits is its
  value, the empty string is 0, and anything else is \<^verbatim>\<open>NaN\<close>, here \<open>None\<close>.
  (Signs, blanks, fractions and exponents, which \<^verbatim>\<open>Number\<close> also accepts, do not occur
  in \<^verbatim>\<open>HH:MM\<close> strings and are read as \<open>None\<close>.)
\<close>

fun Number_acc :: "nat \<Rightarrow> string \<Rightarrow> nat option" where
  "Number_acc acc [] = Some acc"
| "Number_acc acc (c # cs) =
     (case digit_val c of None \<Rightarrow> None | Some d \<Rightarrow> Number_acc (10 * acc + d) cs)"

definition Number :: "string \<Rightarrow> nat option" where
  "Number s = Number_acc 0 s"

text \<open>
  \<^verbatim>\<open>const [hours, minutes] = time.split(":").map(Number); return hours * 60 + minutes\<close>.
  A missing second part is \<^verbatim>\<open>undefined\<close>, and arithmetic on it or on \<^verbatim>\<open>NaN\<close> gives
  \<^verbatim>\<open>NaN\<close> (\<open>None\<close>).
\<close>

definition timeToMinutes :: "string \<Rightarrow> nat option" where
  "timeToMinutes time =
     (case map Number (split_on CHR '':'' time) of
        Some hours # Some minutes # _ \<Rightarrow> Some (hours * 60 + minutes)
      | _ \<Rightarrow> None)"

text \<open>Every comparison with \<^verbatim>\<open>NaN\<close> is false.\<close>

definition isTimeInRange :: "string \<Rightarrow> string \<Rightarrow> string \<Rightarrow> bool" where
  "isTimeInRange currentTime startTime endTime =
     (case (timeToMinutes currentTime, timeToMinutes startTime, timeToMinutes endTime) of
        (Some current, Some start, Some end') \<Rightarrow>
          (if end' < start then current \<ge> start \<or> current \<le> end'
           else current \<ge> start \<and> current \<le> end')
      | _ \<Rightarrow> False)"

definition getNextEquitySession :: "string \<Rightarrow> string" where
  "getNextEquitySession currentTime =
     (case timeToMinutes currentTime of
        None \<Rightarrow> ''Next day 09:00 (Pre-market)''
      | Some current \<Rightarrow>
          (if current < 9 * 60 then ''09:00 (Pre-market)''
           else if current < 9 * 60 + 15 then ''09:15 (Normal trading)''
           else if current < 15 * 60 + 30 then ''15:30 (Post-market)''
           else ''Next day 09:00 (Pre-market)''))"

definition getNextOpenTime :: "MarketType \<Rightarrow> string" where
  "getNextOpenTime marketType = ''Next trading day 09:00''"

definition closedStatus :: "string \<Rightarrow> string \<Rightarrow> MarketStatus" where
  "closedStatus why next =
     \<lparr>isOpen = False, session = ''Closed'', reason = why,
      nextOpenTime = Some next, sessionEnd = None\<rparr>"

definition openStatus :: "string \<Rightarrow> string \<Rightarrow> string \<Rightarrow> MarketStatus" where
  "openStatus sess why end' =
     \<lparr>isOpen = True, session = sess, reason = why,
      nextOpenTime = None, sessionEnd = Some end'\<rparr>"

definition inSession :: "string \<Rightarrow> MarketSession \<Rightarrow> bool" where
  "inSession currentTime ms = isTimeInRange currentTime (session_start ms) (session_end ms)"

definition getCurrentMarketStatus :: "MarketType \<Rightarrow> IstTime \<Rightarrow> MarketStatus" where
  "getCurrentMarketStatus marketType istTime =
     (let currentTime = take 5 (timeString istTime);
          currentDate = hd (split_on CHR ''T'' (isoString istTime));
          dayOfWeek = day istTime
      in if dayOfWeek = 0 \<or> dayOfWeek = 6
         then closedStatus ''Weekend'' (getNextOpenTime marketType)
         else if currentDate \<in> set MARKET_HOLIDAYS_2024
         then closedStatus ''Market Holiday'' (getNextOpenTime marketType)
         else
           let timings = MARKET_TIMINGS marketType in
           if marketType = Equity then
             (if (case preMarket timings of None \<Rightarrow> False | Some pm \<Rightarrow> inSession currentTime pm)
              then openStatus ''Pre-market'' ''Pre-market session''
                     (session_end (the (preMarket timings)))
              else if inSession currentTime (normal timings)
              then openStatus ''Open'' ''Normal trading session'' (session_end (normal timings))
              else if (case postMarket timings of None \<Rightarrow> False | Some pm \<Rightarrow> inSession currentTime pm)
              then openStatus ''Post-market'' ''Post-market session''
                     (session_end (the (postMarket timings)))
              else closedStatus ''Outside trading hours'' (getNextEquitySession currentTime))
           else if inSession currentTime (normal timings)
           then openStatus ''Open'' ''Normal trading session'' (session_end (normal timings))
           else closedStatus ''Outside trading hours'' (getNextOpenTime marketType))"

text \<open>\<^verbatim>\<open>String.prototype.toUpperCase\<close> on ASCII letters; other characters are kept.\<close>

definition upper_char :: "char \<Rightarrow> char" where
  "upper_char c =
     (let n = (of_char c :: nat) in if 97 \<le> n \<and> n \<le> 122 then char_of (n - 32) else c)"

definition toUpperCase :: "string \<Rightarrow> string" where
  "toUpperCase s = map upper_char s"

fun startsWith :: "string \<Rightarrow> string \<Rightarrow> bool" where
  "startsWith s [] = True"
| "startsWith [] (p # ps) = False"
| "startsWith (c # cs) (p # ps) = (c = p \<and> startsWith cs ps)"

fun includes_str :: "string \<Rightarrow> string \<Rightarrow> bool" where
  "includes_str [] p = (p = [])"
| "includes_str (c # cs) p = (startsWith (c # cs) p \<or> includes_str cs p)"

definition getMarketTypeForInstrument :: "string \<Rightarrow> MarketType" where
  "getMarketTypeForInstrument instrumentName =
     (let name = toUpperCase instrumentName
      in if includes_str name ''USD'' \<or> includes_str name ''EUR'' \<or> includes_str name ''GBP''
            \<or> includes_str name ''JPY'' \<or> includes_str name ''USDINR'' \<or> includes_str name ''EURINR''
         then Currency
         else if includes_str name ''CRUDE'' \<or> includes_str name ''GOLD'' \<or> includes_str name ''SILVER''
            \<or> includes_str name ''COPPER'' \<or> includes_str name ''ZINC'' \<or> includes_str name ''ALUMINIUM''
            \<or> includes_str name ''LEAD'' \<or> includes_str name ''NICKEL'' \<or> includes_str name ''NATURALGAS''
            \<or> includes_str name ''MENTHAOIL'' \<or> includes_str name ''CARDAMOM'' \<or> includes_str name ''PEPPER''
         then Commodity
         else if includes_str name ''GSEC'' \<or> includes_str name ''GOVT'' \<or> includes_str name ''BOND''
         then Gsec
         else if includes_str name ''CORP'' \<and> includes_str name ''BOND''
         then Bonds
         else Equity)"

definition shouldAlertsBeActive :: "string \<Rightarrow> IstTime \<Rightarrow> bool" where
  "shouldAlertsBeActive instrumentName istTime =
     isOpen (getCurrentMarketStatus (getMarketTypeForInstrument instrumentName) istTime)"

text \<open>
  \<^verbatim>\<open>getDetailedMarketStatus\<close> returns the status extended with the market type (and the
  timings and the name, which its caller in the alert hook does not read).
\<close>

definition getDetailedMarketStatus :: "string \<Rightarrow> IstTime \<Rightarrow> MarketStatus \<times> MarketType" where
  "getDetailedMarketStatus instrumentName istTime =
     (let marketType = getMarketTypeForInstrument instrumentName
      in (getCurrentMarketStatus marketType istTime, marketType))"



definition monday_10am :: IstTime where
  "monday_10am =
     \<lparr>timeString = ''10:00:00 GMT+0530 (India Standard Time)'',
      isoString = ''2024-01-29T04:30:00.000Z'', day = 1\<rparr>"

definition monday_8pm :: IstTime where
  "monday_8pm =
     \<lparr>timeString = ''20:00:00 GMT+0530 (India Standard Time)'',
      isoString = ''2024-01-29T14:30:00.000Z'', day = 1\<rparr>"

section \<open>The clock\<close>

text \<open>
  What one handler invocation reads from the system clock: \<open>nowMs\<close> is \<^verbatim>\<open>Date.now()\<close>,
  \<open>localeTime\<close> the \<^verbatim>\<open>toLocaleTimeString\<close> stamp of debug lines, and \<open>ist\<close> the
  \<^verbatim>\<open>istTime\<close> object of the market-timing module. A handler runs to completion within
  one reading of the clock.
\<close>

record Clock =
  nowMs :: int
  localeTime :: string
  ist :: IstTime

section \<open>Primary feed connector (src/hooks/use-tick-data.ts)\<close>

text \<open>
  A time or a span in milliseconds as JavaScript computes with it: an integer, or
  \<^verbatim>\<open>NaN\<close>, which is what the time of an invalid \<^verbatim>\<open>Date\<close> is. Arithmetic on
  \<^verbatim>\<open>NaN\<close> gives \<^verbatim>\<open>NaN\<close>, every comparison with it is false, and it is falsy,
  as 0 is.
\<close>

datatype jstime = NaN | Ms int

fun js_minus :: "jstime \<Rightarrow> jstime \<Rightarrow> jstime" where
  "js_minus (Ms a) (Ms b) = Ms (a - b)"
| "js_minus _ _ = NaN"

text \<open>\<^verbatim>\<open>Math.max(0, x)\<close>\<close>

fun Math_max0 :: "jstime \<Rightarrow> jstime" where
  "Math_max0 NaN = NaN"
| "Math_max0 (Ms d) = Ms (max 0 d)"

fun js_greater :: "jstime \<Rightarrow> int \<Rightarrow> bool" where
  "js_greater NaN k = False"
| "js_greater (Ms d) k = (d > k)"

fun truthy_time :: "jstime option \<Rightarrow> bool" where
  "truthy_time None = False"
| "truthy_time (Some NaN) = False"
| "truthy_time (Some (Ms n)) = (n \<noteq> 0)"

text \<open>
  \<^verbatim>\<open>new Date(n).getTime()\<close> for a number of milliseconds: the number itself within the
  range of dates, \<^verbatim>\<open>NaN\<close> beyond it.
\<close>

definition getTime :: "int \<Rightarrow> jstime" where
  "getTime n = (if \<bar>n\<bar> \<le> 8640000000000000 then Ms n else NaN)"

text \<open>
  Instrument tokens are non-negative integers. The random \<^verbatim>\<open>id\<close> field of ticks and
  alerts is left out: nothing reads it.
\<close>

record TickData =
  instrument_token :: nat
  last_price :: real
  volume :: real
  average_price :: real
  last_quantity :: real
  timestamp :: jstime
  delay :: jstime
  receivedAt :: int
  tradingsymbol :: "string option"

datatype AlertType = FreezeAlert | DelayAlert | ConnectionAlert | DataAlert | MarketAlert

datatype Severity = Low | Medium | High

datatype ReadyState = CONNECTING | OPEN | CLOSED

text \<open>
  Alert and debug texts are template literals that print numbers; each template is one
  constructor, holding the values it prints.
\<close>

datatype Msg =
    MsgProcessing string nat
  | MsgParsedArray "nat option"
  | MsgSpecificTick "string option" nat real jstime
  | MsgSkippedInvalid string
  | MsgProcessed nat nat
  | MsgErrorProcessing string
  | MsgAlertLine Severity Msg
  | MsgAttempt int
  | MsgSourceCreated
  | MsgTimeoutClosing
  | MsgConnectionTimeout
  | MsgOpened
  | MsgConnected
  | MsgHighDelay nat
  | MsgNoData
  | MsgSSEError ReadyState
  | MsgWillReconnect
  | MsgConnectionLost real
  | MsgCreateFailed string
  | MsgConnectionFailed string

record Alert =
  alert_type :: AlertType
  message :: Msg
  alert_timestamp :: int
  severity :: Severity
  alert_instrumentToken :: "nat option"

definition FREEZE_THRESHOLD :: int where "FREEZE_THRESHOLD = 5000"
definition DELAY_THRESHOLD :: int where "DELAY_THRESHOLD = 1000"
definition MAX_TICKS_STORED :: nat where "MAX_TICKS_STORED = 200"
definition MAX_RAW_MESSAGES :: nat where "MAX_RAW_MESSAGES = 20"
definition MAX_DEBUG_INFO :: nat where "MAX_DEBUG_INFO = 50"
definition MAX_ALERTS :: nat where "MAX_ALERTS = 20"

datatype ConnectionStatus = Connecting | Connected | Disconnected

text \<open>
  A pending \<^verbatim>\<open>setTimeout\<close>: which callback it runs, when it was set and the delay asked
  for, in milliseconds.
\<close>

datatype ConnCallback = ConnectionTimeoutCb nat | FreezeCb | ReconnectCb

record ConnTimer =
  callback :: ConnCallback
  setAt :: int
  delayMs :: real

text \<open>
  The hook's state variables and refs, the module-level \<^verbatim>\<open>lastTickTimestamps\<close> table
  and the runtime's table of pending timers. Timer handles and event sources are numbered
  from \<open>nextHandle\<close>, which starts at 1, so that a handle is never falsy.
  \<open>connectionTimeoutOf\<close> holds the local variable \<^verbatim>\<open>connectionTimeout\<close> that the
  handlers of an event source close over.
\<close>

record Conn =
  ticks :: "TickData list"
  isConnected :: bool
  isFrozen :: bool
  lastTickTime :: "int option"
  totalTicks :: nat
  freezingIncidents :: nat
  alerts :: "Alert list"
  connectionStatus :: ConnectionStatus
  rawMessages :: "string list"
  debugInfo :: "(string \<times> Msg) list"
  eventSourceRef :: "nat option"
  freezeTimeoutRef :: "nat option"
  reconnectTimeoutRef :: "nat option"
  connectionAttempts :: int
  lastTickTimestamps :: "nat \<rightharpoonup> jstime"
  pendingTimers :: "nat \<rightharpoonup> ConnTimer"
  nextHandle :: nat
  closedSources :: "nat set"
  connectionTimeoutOf :: "nat \<rightharpoonup> nat"

definition initialConn :: Conn where
  "initialConn =
     \<lparr>ticks = [], isConnected = False, isFrozen = False, lastTickTime = None,
      totalTicks = 0, freezingIncidents = 0, alerts = [],
      connectionStatus = Disconnected, rawMessages = [], debugInfo = [],
      eventSourceRef = None, freezeTimeoutRef = None, reconnectTimeoutRef = None,
      connectionAttempts = 0, lastTickTimestamps = Map.empty,
      pendingTimers = Map.empty, nextHandle = 1, closedSources = {},
      connectionTimeoutOf = Map.empty\<rparr>"

definition addDebugInfo :: "Clock \<Rightarrow> Msg \<Rightarrow> Conn \<Rightarrow> Conn" where
  "addDebugInfo clk msg s =
     s\<lparr>debugInfo := (localeTime clk, msg) # take (MAX_DEBUG_INFO - 1) (debugInfo s)\<rparr>"

definition addAlert :: "Clock \<Rightarrow> AlertType \<Rightarrow> Msg \<Rightarrow> Severity \<Rightarrow> nat option \<Rightarrow> Conn \<Rightarrow> Conn" where
  "addAlert clk ty msg sev tok s =
     (let alert = \<lparr>alert_type = ty, message = msg, alert_timestamp = nowMs clk,
                    severity = sev, alert_instrumentToken = tok\<rparr>
      in addDebugInfo clk (MsgAlertLine sev msg)
           (s\<lparr>alerts := take (MAX_ALERTS - 1) (alert # alerts s)\<rparr>))"

definition clearTimeout :: "nat \<Rightarrow> Conn \<Rightarrow> Conn" where
  "clearTimeout h s = s\<lparr>pendingTimers := (pendingTimers s)(h := None)\<rparr>"

definition setTimeout :: "Clock \<Rightarrow> ConnCallback \<Rightarrow> real \<Rightarrow> Conn \<Rightarrow> nat \<times> Conn" where
  "setTimeout clk cb ms s =
     (nextHandle s,
      s\<lparr>pendingTimers := (pendingTimers s)(nextHandle s \<mapsto>
            \<lparr>callback = cb, setAt = nowMs clk, delayMs = ms\<rparr>),
        nextHandle := nextHandle s + 1\<rparr>)"

subsection \<open>Parsing a batch\<close>

text \<open>
  The value of \<^verbatim>\<open>JSON.parse(rawData)\<close>. \<open>Throws\<close>: the parse fails, or the value is
  \<^verbatim>\<open>null\<close> and reading its length fails. \<open>NotIterable\<close>: a number, boolean or plain
  object, whose \<^verbatim>\<open>length\<close> is printed and whose iteration fails. \<open>Batch\<close>: an
  array (or a string, whose characters are then non-object entries). Both failures carry
  the text of the error.

  An entry of the batch is either no object (\<^verbatim>\<open>null\<close>, a number, a string, a boolean)
  or an object with the optional fields of a raw tick; \<open>raw_text\<close> is what
  \<^verbatim>\<open>JSON.stringify\<close> prints for it. A \<^verbatim>\<open>timestamp\<close> field is a number of
  milliseconds or a non-empty date string, the latter given by the time
  \<^verbatim>\<open>new Date(string).getTime()\<close> reads from it, which is \<^verbatim>\<open>NaN\<close> for a string
  that is no date. (A field that is \<^verbatim>\<open>null\<close>, 0 or the empty string is falsy, as a
  missing one.)
\<close>

datatype JsTimestamp = TsNumber int | TsString jstime

record RawTick =
  raw_instrument_token :: "nat option"
  raw_last_price :: "real option"
  raw_volume_traded :: "real option"
  raw_average_traded_price :: "real option"
  raw_last_traded_quantity :: "real option"
  raw_timestamp :: "JsTimestamp option"
  raw_tradingsymbol :: "string option"
  raw_text :: string

datatype RawEntry = NonObject | Object RawTick

datatype ParseResult = Throws string | NotIterable "nat option" string | Batch "RawEntry list"

record Message =
  rawData :: string
  parsed :: ParseResult

text \<open>\<^verbatim>\<open>x || 0\<close> on an optional number: a missing field and 0 are both falsy.\<close>

definition or0 :: "real option \<Rightarrow> real" where
  "or0 x = (case x of None \<Rightarrow> 0 | Some v \<Rightarrow> v)"

definition truthy_num :: "'a::zero option \<Rightarrow> bool" where
  "truthy_num x = (case x of None \<Rightarrow> False | Some v \<Rightarrow> v \<noteq> 0)"

definition truthy_str :: "string option \<Rightarrow> bool" where
  "truthy_str x = (case x of None \<Rightarrow> False | Some v \<Rightarrow> v \<noteq> [])"

text \<open>
  One round of the loop over the batch. (The unused call of \<^verbatim>\<open>isMarketOpen\<close> has no
  effect and is left out.)
\<close>

definition processEntry :: "Clock \<Rightarrow> RawEntry \<Rightarrow> TickData list \<times> Conn \<Rightarrow> TickData list \<times> Conn" where
  "processEntry clk entry acc =
     (case entry of
        NonObject \<Rightarrow> acc
      | Object tickData \<Rightarrow>
          if \<not> truthy_num (raw_instrument_token tickData) then acc
          else
            let (processedTicks, s) = acc;
                token = the (raw_instrument_token tickData);
                tickTimestamp =
                  (case raw_timestamp tickData of
                     None \<Rightarrow> Ms (nowMs clk)
                   | Some (TsNumber n) \<Rightarrow> if n = 0 then Ms (nowMs clk) else getTime n
                   | Some (TsString t) \<Rightarrow> t);
                lastTickTimeForInstrument = lastTickTimestamps s token;
                interTickDelay =
                  (if truthy_time lastTickTimeForInstrument
                   then js_minus tickTimestamp (the lastTickTimeForInstrument) else Ms 0);
                s1 = s\<lparr>lastTickTimestamps := (lastTickTimestamps s)(token \<mapsto> tickTimestamp)\<rparr>;
                newTick =
                  \<lparr>instrument_token = token,
                   last_price = or0 (raw_last_price tickData),
                   volume = or0 (raw_volume_traded tickData),
                   average_price =
                     (if truthy_num (raw_average_traded_price tickData)
                      then the (raw_average_traded_price tickData)
                      else or0 (raw_last_price tickData)),
                   last_quantity = or0 (raw_last_traded_quantity tickData),
                   timestamp = tickTimestamp,
                   delay = Math_max0 interTickDelay,
                   receivedAt = nowMs clk,
                   tradingsymbol =
                     (if truthy_str (raw_tradingsymbol tickData)
                      then raw_tradingsymbol tickData else None)\<rparr>
            in if instrument_token newTick \<noteq> 0
               then (processedTicks @ [newTick],
                     if instrument_token newTick = 265 \<or> instrument_token newTick = 408065
                     then addDebugInfo clk
                            (MsgSpecificTick (tradingsymbol newTick) (instrument_token newTick)
                               (last_price newTick) (delay newTick)) s1
                     else s1)
               else (processedTicks, addDebugInfo clk (MsgSkippedInvalid (raw_text tickData)) s1))"

definition processTickData :: "string \<Rightarrow> Clock \<Rightarrow> Message \<Rightarrow> Conn \<Rightarrow> TickData list \<times> Conn" where
  "processTickData eventType clk msg s =
     (let s1 = addDebugInfo clk (MsgProcessing eventType (length (rawData msg))) s;
          s2 = s1\<lparr>rawMessages :=
                 (''['' @ eventType @ ''] '' @ take 100 (rawData msg) @ ''...'')
                 # take (MAX_RAW_MESSAGES - 1) (rawMessages s1)\<rparr>
      in case parsed msg of
           Throws err \<Rightarrow>
             ([], addAlert clk DataAlert (MsgErrorProcessing err) Medium None
                    (addDebugInfo clk (MsgErrorProcessing err) s2))
         | NotIterable len err \<Rightarrow>
             ([], addAlert clk DataAlert (MsgErrorProcessing err) Medium None
                    (addDebugInfo clk (MsgErrorProcessing err)
                       (addDebugInfo clk (MsgParsedArray len) s2)))
         | Batch ticksArray \<Rightarrow>
             let (processedTicks, s3) =
                   fold (processEntry clk) ticksArray
                     ([], addDebugInfo clk (MsgParsedArray (Some (length ticksArray))) s2)
             in (processedTicks,
                 if processedTicks \<noteq> []
                 then addDebugInfo clk
                        (MsgProcessed (length processedTicks)
                           (length (filter (\<lambda>t. last_price t > 0) processedTicks))) s3
                 else s3))"

subsection \<open>Connection handlers\<close>

text \<open>The listener for \<^verbatim>\<open>tick\<close> events.\<close>

definition tickListener :: "Clock \<Rightarrow> Message \<Rightarrow> Conn \<Rightarrow> Conn" where
  "tickListener clk msg s =
     (let (processedTicks, s1) = processTickData ''tick'' clk msg s
      in if processedTicks \<noteq> [] then
           let s2 = s1\<lparr>ticks := take MAX_TICKS_STORED (processedTicks @ ticks s1),
                       totalTicks := totalTicks s1 + length processedTicks,
                       lastTickTime := Some (nowMs clk),
                       isFrozen := False\<rparr>;
               highDelayTicks = filter (\<lambda>tick. js_greater (delay tick) DELAY_THRESHOLD) processedTicks;
               s3 = (if highDelayTicks \<noteq> []
                     then addAlert clk DelayAlert (MsgHighDelay (length highDelayTicks)) Medium None s2
                     else s2);
               s4 = (case freezeTimeoutRef s3 of None \<Rightarrow> s3 | Some h \<Rightarrow> clearTimeout h s3);
               (h, s5) = setTimeout clk FreezeCb (real_of_int FREEZE_THRESHOLD) s4
           in s5\<lparr>freezeTimeoutRef := Some h\<rparr>
         else s1)"

text \<open>
  The freeze timer with handle \<open>h\<close> fires: the runtime takes it off its table and runs
  the callback.
\<close>

definition freezeFired :: "nat \<Rightarrow> Clock \<Rightarrow> Conn \<Rightarrow> Conn" where
  "freezeFired h clk s =
     addAlert clk FreezeAlert MsgNoData High None
       ((clearTimeout h s)\<lparr>isFrozen := True, freezingIncidents := freezingIncidents s + 1\<rparr>)"

text \<open>
  \<^verbatim>\<open>connectToSSE\<close>. \<open>createFails\<close> tells whether the \<^verbatim>\<open>EventSource\<close> constructor
  throws (the \<^verbatim>\<open>catch\<close> branch), with the text of the error.
\<close>

definition connectToSSE :: "string option \<Rightarrow> Clock \<Rightarrow> Conn \<Rightarrow> Conn" where
  "connectToSSE createFails clk s =
     (let s1 = (case eventSourceRef s of None \<Rightarrow> s
                | Some es \<Rightarrow> s\<lparr>closedSources := insert es (closedSources s)\<rparr>);
          s2 = s1\<lparr>connectionAttempts := connectionAttempts s1 + 1,
                  connectionStatus := Connecting\<rparr>;
          s3 = addDebugInfo clk (MsgAttempt (connectionAttempts s2)) s2
      in case createFails of
           Some err \<Rightarrow>
             addAlert clk ConnectionAlert (MsgConnectionFailed err) High None
               ((addDebugInfo clk (MsgCreateFailed err) s3)\<lparr>connectionStatus := Disconnected\<rparr>)
         | None \<Rightarrow>
             let es = nextHandle s3;
                 s4 = addDebugInfo clk MsgSourceCreated
                        (s3\<lparr>eventSourceRef := Some es, nextHandle := es + 1\<rparr>);
                 (h, s5) = setTimeout clk (ConnectionTimeoutCb es) 15000 s4
             in s5\<lparr>connectionTimeoutOf := (connectionTimeoutOf s5)(es \<mapsto> h)\<rparr>)"

definition clearConnectionTimeout :: "nat \<Rightarrow> Conn \<Rightarrow> Conn" where
  "clearConnectionTimeout es s =
     (case connectionTimeoutOf s es of None \<Rightarrow> s | Some h \<Rightarrow> clearTimeout h s)"


text \<open>
  \<^verbatim>\<open>eventSource.onerror\<close> of event source \<open>es\<close>; \<open>readyState\<close> is what
  \<^verbatim>\<open>eventSource.readyState\<close> reads when the handler runs. \<^verbatim>\<open>Math.pow(2, n)\<close> for an
  integer \<open>n\<close> is \<open>2 powi n\<close>.
\<close>

definition reconnectDelay :: "int \<Rightarrow> real" where
  "reconnectDelay attempts = min (5000 * 2 powi (attempts - 1)) 30000"

definition onerror :: "nat \<Rightarrow> ReadyState \<Rightarrow> Clock \<Rightarrow> Conn \<Rightarrow> Conn" where
  "onerror es readyState clk s =
     (let s1 = addDebugInfo clk (MsgSSEError readyState) (clearConnectionTimeout es s)
      in if readyState = CLOSED then
           let s2 = (addDebugInfo clk MsgWillReconnect s1)
                      \<lparr>isConnected := False, connectionStatus := Disconnected\<rparr>;
               delay' = reconnectDelay (connectionAttempts s2);
               s3 = addAlert clk ConnectionAlert (MsgConnectionLost (delay' / 1000)) High None s2;
               s4 = (case reconnectTimeoutRef s3 of None \<Rightarrow> s3 | Some h \<Rightarrow> clearTimeout h s3);
               (h, s5) = setTimeout clk ReconnectCb delay' s4
           in s5\<lparr>reconnectTimeoutRef := Some h\<rparr>
         else s1)"

text \<open>The callback of the connection timeout of event source \<open>es\<close>.\<close>

definition connectionTimeoutFired :: "nat \<Rightarrow> ReadyState \<Rightarrow> Clock \<Rightarrow> Conn \<Rightarrow> Conn" where
  "connectionTimeoutFired es readyState clk s =
     (if readyState = CONNECTING
      then addAlert clk ConnectionAlert MsgConnectionTimeout High None
             ((addDebugInfo clk MsgTimeoutClosing s)\<lparr>closedSources := insert es (closedSources s)\<rparr>)
      else s)"

section \<open>Upstox feed connector (src/hooks/use-upstox-tick-data.ts)\<close>

record UpstoxTickData =
  u_instrument_token :: string
  u_last_price :: real
  u_last_quantity :: real
  u_average_price :: real
  u_volume :: real
  u_timestamp :: jstime
  u_receivedAt :: int
  u_delay :: jstime

datatype UpstoxAlertType = UConnectionAlert | UDataAlert | UFreezeAlert

datatype UpstoxMsg = UMsgConnected | UMsgNoData | UMsgParseError string | UMsgReconnecting

record UpstoxAlert =
  u_alert_type :: UpstoxAlertType
  u_message :: UpstoxMsg
  u_severity :: Severity
  u_alert_timestamp :: int

datatype UpstoxStatus = UDisconnected | UConnecting | UConnected | UError

definition FREEZE_TIMEOUT :: int where "FREEZE_TIMEOUT = 30000"
definition MAX_TICKS :: nat where "MAX_TICKS = 1000"
definition U_MAX_ALERTS :: nat where "U_MAX_ALERTS = 50"

text \<open>
  The hook's state, its refs and the pending freeze timers (handle to the time it was set
  and its delay). Handles are numbered from 1.
\<close>

record UConn =
  u_ticks :: "UpstoxTickData list"
  u_alerts :: "UpstoxAlert list"
  u_connectionStatus :: UpstoxStatus
  u_isFrozen :: bool
  freezeTimer :: "nat option"
  lastTickForInstrument :: "string \<rightharpoonup> jstime"
  u_pendingTimers :: "nat \<rightharpoonup> int \<times> int"
  u_nextHandle :: nat

definition initialUConn :: UConn where
  "initialUConn =
     \<lparr>u_ticks = [], u_alerts = [], u_connectionStatus = UDisconnected, u_isFrozen = False,
      freezeTimer = None, lastTickForInstrument = Map.empty,
      u_pendingTimers = Map.empty, u_nextHandle = 1\<rparr>"

definition u_addAlert :: "Clock \<Rightarrow> UpstoxAlertType \<Rightarrow> UpstoxMsg \<Rightarrow> Severity \<Rightarrow> UConn \<Rightarrow> UConn" where
  "u_addAlert clk ty msg sev s =
     s\<lparr>u_alerts :=
         \<lparr>u_alert_type = ty, u_message = msg, u_severity = sev, u_alert_timestamp = nowMs clk\<rparr>
         # take (U_MAX_ALERTS - 1) (u_alerts s)\<rparr>"

definition scheduleFreeze :: "Clock \<Rightarrow> UConn \<Rightarrow> UConn" where
  "scheduleFreeze clk s =
     (let pending = (case freezeTimer s of None \<Rightarrow> u_pendingTimers s
                     | Some h \<Rightarrow> (u_pendingTimers s)(h := None))
      in s\<lparr>u_pendingTimers := pending(u_nextHandle s \<mapsto> (nowMs clk, FREEZE_TIMEOUT)),
           freezeTimer := Some (u_nextHandle s),
           u_nextHandle := u_nextHandle s + 1\<rparr>)"

text \<open>
  The freeze timer with handle \<open>h\<close> fires: the runtime takes it off its table and runs
  the callback.
\<close>

definition u_freezeFired :: "nat \<Rightarrow> Clock \<Rightarrow> UConn \<Rightarrow> UConn" where
  "u_freezeFired h clk s =
     u_addAlert clk UFreezeAlert UMsgNoData High
       (s\<lparr>u_isFrozen := True, u_pendingTimers := (u_pendingTimers s)(h := None)\<rparr>)"

text \<open>
  The value of \<^verbatim>\<open>JSON.parse(e.data)\<close>: the parse fails (\<open>UThrows\<close>), the value is a
  \<^verbatim>\<open>live_feed\<close> envelope with its feeds in order (\<open>LiveFeed\<close>), or it is anything
  else (\<open>OtherPayload\<close>). A feed item gives \<^verbatim>\<open>item?.ff?.marketFF?.ltpc\<close>, the volume
  of the last \<^verbatim>\<open>ohlc\<close> entry and \<^verbatim>\<open>item.volume\<close>, each if present; \<open>ltt\<close>
  is the value \<^verbatim>\<open>Number\<close> reads from the field, \<^verbatim>\<open>NaN\<close> if it is no number.
\<close>

record Ltpc =
  ltp :: "real option"
  ltt :: "jstime option"
  ltq :: "real option"
  cp :: "real option"

record FeedItem =
  ltpc :: "Ltpc option"
  ohlc_volume :: "real option"
  item_volume :: "real option"

datatype UpstoxPayload = UThrows string | LiveFeed "(string \<times> FeedItem) list" | OtherPayload

text \<open>\<^verbatim>\<open>a ?? b\<close>\<close>

definition nullish :: "'a option \<Rightarrow> 'a \<Rightarrow> 'a" where
  "nullish a b = (case a of None \<Rightarrow> b | Some v \<Rightarrow> v)"

definition feedEntry :: "Clock \<Rightarrow> string \<times> FeedItem \<Rightarrow> UpstoxTickData list \<times> UConn \<Rightarrow> UpstoxTickData list \<times> UConn" where
  "feedEntry clk entry acc =
     (let (key, item) = entry; (newTicks, s) = acc
      in case ltpc item of
           None \<Rightarrow> acc
         | Some l \<Rightarrow>
             if \<not> truthy_num (ltp l) then acc
             else
               let ts = nullish (ltt l) (Ms (nowMs clk));
                   prev = lastTickForInstrument s key;
                   delay' = (if truthy_time prev then js_minus ts (the prev) else Ms 0);
                   s1 = s\<lparr>lastTickForInstrument := (lastTickForInstrument s)(key \<mapsto> ts)\<rparr>
               in (newTicks @
                     [\<lparr>u_instrument_token = key,
                       u_last_price = the (ltp l),
                       u_last_quantity = nullish (ltq l) 0,
                       u_average_price = nullish (cp l) (the (ltp l)),
                       u_volume = nullish (ohlc_volume item) (nullish (item_volume item) 0),
                       u_timestamp = ts,
                       u_receivedAt = nowMs clk,
                       u_delay = delay'\<rparr>],
                   s1))"

text \<open>An entry of the feeds that passes \<^verbatim>\<open>if (!ltpc?.ltp) continue\<close>.\<close>

definition yieldsTick :: "string \<times> FeedItem \<Rightarrow> bool" where
  "yieldsTick entry = (case ltpc (snd entry) of None \<Rightarrow> False | Some l \<Rightarrow> truthy_num (ltp l))"

text \<open>\<^verbatim>\<open>es.onmessage\<close>\<close>

definition onmessage :: "Clock \<Rightarrow> UpstoxPayload \<Rightarrow> UConn \<Rightarrow> UConn" where
  "onmessage clk payload s =
     (let s1 = scheduleFreeze clk s
      in case payload of
           UThrows err \<Rightarrow> u_addAlert clk UDataAlert (UMsgParseError err) Medium s1
         | OtherPayload \<Rightarrow> s1
         | LiveFeed feeds \<Rightarrow>
             let (newTicks, s2) = fold (feedEntry clk) feeds ([], s1)
             in if newTicks \<noteq> []
                then s2\<lparr>u_ticks := take MAX_TICKS (newTicks @ u_ticks s2), u_isFrozen := False\<rparr>
                else s2)"

text \<open>\<^verbatim>\<open>es.onopen\<close>\<close>

definition u_onopen :: "Clock \<Rightarrow> UConn \<Rightarrow> UConn" where
  "u_onopen clk s =
     scheduleFreeze clk
       (u_addAlert clk UConnectionAlert UMsgConnected Low (s\<lparr>u_connectionStatus := UConnected\<rparr>))"

section \<open>Inactivity alerts (the hook \<^verbatim>\<open>useInactivityAlerts\<close>, src/unnamed/part_000)\<close>

subsection \<open>Instrument names (\<^verbatim>\<open>getInstrumentName\<close>, src/unnamed/part_004)\<close>

definition digit_char :: "nat \<Rightarrow> char" where
  "digit_char d = char_of (48 + d)"

text \<open>The decimal text of a number, as a template literal prints it.\<close>

fun showNat :: "nat \<Rightarrow> string" where
  "showNat n = (if n < 10 then [digit_char n] else showNat (n div 10) @ [digit_char (n mod 10)])"

declare showNat.simps [simp del]

definition tokenMap :: "nat \<rightharpoonup> string" where
  "tokenMap t =
     (if t = 256265 then Some ''NIFTY''
      else if t = 265 then Some ''SENSEX''
      else if t = 128083204 then Some ''RELIANCE''
      else if t = 281836549 then Some ''BHEL''
      else if t = 408065 then Some ''USDINR''
      else if t = 134657 then Some ''CRUDEOIL''
      else None)"

definition getInstrumentName :: "TickData \<Rightarrow> string" where
  "getInstrumentName tick =
     (if truthy_str (tradingsymbol tick) then the (tradingsymbol tick)
      else case tokenMap (instrument_token tick) of
             Some n \<Rightarrow> n
           | None \<Rightarrow> ''TOKEN_'' @ showNat (instrument_token tick))"

subsection \<open>State\<close>

record InactivityAlertConfig =
  enabled :: bool
  deviation :: real
  duration :: int
  respectMarketHours :: bool

text \<open>The value of \<^verbatim>\<open>Math.min(...xs)\<close> and \<^verbatim>\<open>Math.max(...xs)\<close>, infinite on no arguments.\<close>

datatype jsnum = NegInfinity | Finite real | PosInfinity

fun Math_min :: "real list \<Rightarrow> jsnum" where
  "Math_min [] = PosInfinity"
| "Math_min (x # xs) = Finite (fold min xs x)"

fun Math_max :: "real list \<Rightarrow> jsnum" where
  "Math_max [] = NegInfinity"
| "Math_max (x # xs) = Finite (fold max xs x)"

record InactivityAlert =
  ia_instrumentToken :: nat
  ia_instrumentName :: string
  ia_timestamp :: int
  ia_duration :: int
  ia_deviation :: real
  ia_baselinePrice :: real
  ia_currentPrice :: real
  ia_priceRange_min :: jsnum
  ia_priceRange_max :: jsnum
  ia_marketSession :: string
  ia_marketType :: string

text \<open>
  A \<^verbatim>\<open>SymbolState\<close> object. \<open>timerId\<close> is a timer handle, \<open>oscillator\<close> and
  \<open>gainNode\<close> are audio nodes, each given by a number.
\<close>

record SymbolState =
  baselinePrice :: real
  timerId :: "nat option"
  priceHistory :: "(real \<times> int) list"
  lastMarketStatusCheck :: int
  wasMarketOpen :: bool
  oscillator :: "nat option"
  gainNode :: "nat option"

text \<open>
  A pending inactivity timer: the callback closes over the tick and the configuration it
  was armed with and over the state object, \<open>timer_state\<close>, by reference.
\<close>

record Timer =
  timer_tick :: TickData
  timer_config :: InactivityAlertConfig
  timer_state :: nat
  timer_setAt :: int
  timer_delay :: int

text \<open>
  The state of one instance of the hook. State objects are mutated in place and shared
  between the map \<^verbatim>\<open>symbolStates\<close> and the timer callbacks, so they live in a store:
  \<open>symbolStates\<close> maps a token to the address of its object (in insertion order, as a
  \<^verbatim>\<open>Map\<close> iterates), \<open>heap\<close> gives the object at an address. \<open>timers\<close> is the
  runtime's table of pending timeouts, with handles numbered from 1. \<open>playing\<close> holds
  the oscillators that were started and not stopped. \<open>clickListener\<close> tells whether
  the listener that creates the audio context is still installed.
  (Desktop notifications are not part of the state.)
\<close>

record Engine =
  configurations :: "nat \<rightharpoonup> InactivityAlertConfig"
  inactivityAlerts :: "InactivityAlert list"
  inactiveSymbols :: "nat set"
  symbolStates :: "(nat \<times> nat) list"
  heap :: "nat \<Rightarrow> SymbolState"
  nextRef :: nat
  timers :: "nat \<rightharpoonup> Timer"
  nextTimer :: nat
  audioContext :: bool
  clickListener :: bool
  playing :: "nat set"
  nextNode :: nat

definition blankState :: SymbolState where
  "blankState =
     \<lparr>baselinePrice = 0, timerId = None, priceHistory = [], lastMarketStatusCheck = 0,
      wasMarketOpen = False, oscillator = None, gainNode = None\<rparr>"

definition initialEngine :: Engine where
  "initialEngine =
     \<lparr>configurations = Map.empty, inactivityAlerts = [], inactiveSymbols = {},
      symbolStates = [], heap = (\<lambda>_. blankState), nextRef = 0,
      timers = Map.empty, nextTimer = 1, audioContext = False, clickListener = True,
      playing = {}, nextNode = 0\<rparr>"

text \<open>Mutation of the object at address \<open>r\<close>.\<close>

definition modify :: "nat \<Rightarrow> (SymbolState \<Rightarrow> SymbolState) \<Rightarrow> Engine \<Rightarrow> Engine" where
  "modify r f s = s\<lparr>heap := (heap s)(r := f (heap s r))\<rparr>"

subsection \<open>Sound\<close>

text \<open>The click listener \<^verbatim>\<open>initAudio\<close>; \<open>ok\<close> tells whether the audio context can be created.\<close>

definition initAudio :: "bool \<Rightarrow> Engine \<Rightarrow> Engine" where
  "initAudio ok s =
     (if clickListener s
      then s\<lparr>audioContext := (audioContext s \<or> ok), clickListener := False\<rparr>
      else s)"

definition stopAlertSound :: "nat \<Rightarrow> Engine \<Rightarrow> Engine" where
  "stopAlertSound instrumentToken s =
     (case map_of (symbolStates s) instrumentToken of
        None \<Rightarrow> s
      | Some r \<Rightarrow>
          (case oscillator (heap s r) of
             None \<Rightarrow> s
           | Some osc \<Rightarrow>
               modify r (\<lambda>state. state\<lparr>oscillator := None, gainNode := None\<rparr>)
                 (s\<lparr>playing := playing s - {osc}\<rparr>)))"

definition playAlertSound :: "nat \<Rightarrow> Engine \<Rightarrow> Engine" where
  "playAlertSound instrumentToken s =
     (if \<not> audioContext s then s
      else
        let s1 = stopAlertSound instrumentToken s;
            osc = nextNode s1;
            gain = nextNode s1 + 1;
            s2 = s1\<lparr>playing := insert osc (playing s1), nextNode := nextNode s1 + 2\<rparr>
        in case map_of (symbolStates s2) instrumentToken of
             None \<Rightarrow> s2
           | Some r \<Rightarrow> modify r (\<lambda>state. state\<lparr>oscillator := Some osc, gainNode := Some gain\<rparr>) s2)"

subsection \<open>Alerts and timers\<close>

definition triggerAlert :: "TickData \<Rightarrow> InactivityAlertConfig \<Rightarrow> nat \<Rightarrow> Clock \<Rightarrow> Engine \<Rightarrow> Engine" where
  "triggerAlert tick config r clk s =
     (let instrumentName = getInstrumentName tick;
          (marketStatus, marketType) = getDetailedMarketStatus instrumentName (ist clk);
          prices = map fst (priceHistory (heap s r));
          newAlert =
            \<lparr>ia_instrumentToken = instrument_token tick,
             ia_instrumentName = instrumentName,
             ia_timestamp = nowMs clk,
             ia_duration = duration config,
             ia_deviation = deviation config,
             ia_baselinePrice = baselinePrice (heap s r),
             ia_currentPrice = last_price tick,
             ia_priceRange_min = Math_min prices,
             ia_priceRange_max = Math_max prices,
             ia_marketSession = session marketStatus,
             ia_marketType = marketTypeName marketType\<rparr>
      in playAlertSound (instrument_token tick)
           (s\<lparr>inactivityAlerts := take 100 (newAlert # inactivityAlerts s),
              inactiveSymbols := insert (instrument_token tick) (inactiveSymbols s)\<rparr>))"

definition resetInactivityTimer :: "TickData \<Rightarrow> InactivityAlertConfig \<Rightarrow> nat \<Rightarrow> Clock \<Rightarrow> Engine \<Rightarrow> Engine" where
  "resetInactivityTimer tick config r clk s =
     (let s1 = (case timerId (heap s r) of None \<Rightarrow> s
                | Some h \<Rightarrow> s\<lparr>timers := (timers s)(h := None)\<rparr>);
          h = nextTimer s1
      in modify r (\<lambda>state. state\<lparr>priceHistory := [(last_price tick, nowMs clk)], timerId := Some h\<rparr>)
           (s1\<lparr>timers := (timers s1)(h \<mapsto>
                  \<lparr>timer_tick = tick, timer_config = config, timer_state = r,
                   timer_setAt = nowMs clk, timer_delay = duration config * 1000\<rparr>),
               nextTimer := h + 1\<rparr>))"

definition clearSymbolState :: "nat \<Rightarrow> Engine \<Rightarrow> Engine" where
  "clearSymbolState token s =
     (let s1 = (case map_of (symbolStates s) token of
                  None \<Rightarrow> s
                | Some r \<Rightarrow>
                    (case timerId (heap s r) of None \<Rightarrow> s
                     | Some h \<Rightarrow> s\<lparr>timers := (timers s)(h := None)\<rparr>));
          s2 = stopAlertSound token s1
      in s2\<lparr>symbolStates := AList.delete token (symbolStates s2),
            inactiveSymbols := inactiveSymbols s2 - {token}\<rparr>)"

definition shouldAlertFor :: "TickData \<Rightarrow> InactivityAlertConfig \<Rightarrow> Clock \<Rightarrow> bool" where
  "shouldAlertFor tick config clk =
     (if respectMarketHours config then shouldAlertsBeActive (getInstrumentName tick) (ist clk)
      else True)"

text \<open>
  The callback of timer \<open>h\<close> runs: the runtime takes the timer off its table and calls
  the closure. A handle that is not pending runs nothing.
\<close>

definition timerFired :: "nat \<Rightarrow> Clock \<Rightarrow> Engine \<Rightarrow> Engine" where
  "timerFired h clk s =
     (case timers s h of
        None \<Rightarrow> s
      | Some t \<Rightarrow>
          let s1 = s\<lparr>timers := (timers s)(h := None)\<rparr>;
              tick = timer_tick t;
              config = timer_config t
          in if shouldAlertFor tick config clk
             then triggerAlert tick config (timer_state t) clk s1
             else clearSymbolState (instrument_token tick)
                    (stopAlertSound (instrument_token tick) s1))"

subsection \<open>The effect over the ticks\<close>

definition latestStep :: "TickData \<Rightarrow> (nat \<times> TickData) list \<Rightarrow> (nat \<times> TickData) list" where
  "latestStep tick latest =
     (case map_of latest (instrument_token tick) of
        None \<Rightarrow> AList.update (instrument_token tick) tick latest
      | Some old \<Rightarrow>
          if receivedAt tick > receivedAt old
          then AList.update (instrument_token tick) tick latest
          else latest)"

definition latestTicks :: "TickData list \<Rightarrow> (nat \<times> TickData) list" where
  "latestTicks tickArray = fold latestStep tickArray []"

text \<open>\<^verbatim>\<open>if (state.timerId) { clearTimeout(state.timerId); state.timerId = null }\<close>\<close>

definition cancelTimer :: "nat \<Rightarrow> Engine \<Rightarrow> Engine" where
  "cancelTimer r s =
     (case timerId (heap s r) of
        None \<Rightarrow> s
      | Some h \<Rightarrow> modify r (\<lambda>state. state\<lparr>timerId := None\<rparr>) (s\<lparr>timers := (timers s)(h := None)\<rparr>))"

text \<open>
  \<^verbatim>\<open>if (inactiveSymbols.has(token)) setInactiveSymbols((prev) => ...delete(token))\<close>: the
  test reads the set of the render the effect belongs to, \<open>snapshot\<close>; the update
  applies to the current set.
\<close>

definition clearInactive :: "nat set \<Rightarrow> nat \<Rightarrow> Engine \<Rightarrow> Engine" where
  "clearInactive snapshot token s =
     (if token \<in> snapshot then s\<lparr>inactiveSymbols := inactiveSymbols s - {token}\<rparr> else s)"

text \<open>\<^verbatim>\<open>xs.slice(-100)\<close>\<close>

definition slice_last :: "nat \<Rightarrow> 'a list \<Rightarrow> 'a list" where
  "slice_last n xs = drop (length xs - n) xs"

definition pushHistory :: "TickData \<Rightarrow> int \<Rightarrow> SymbolState \<Rightarrow> SymbolState" where
  "pushHistory tick now state =
     state\<lparr>priceHistory :=
       slice_last 100
         (filter (\<lambda>h. snd h > now - 5 * 60 * 1000) (priceHistory state @ [(last_price tick, now)]))\<rparr>"

text \<open>The baseline moves to the tick's price and monitoring starts afresh.\<close>

definition restartMonitoring :: "nat set \<Rightarrow> TickData \<Rightarrow> InactivityAlertConfig \<Rightarrow> nat \<Rightarrow> Clock \<Rightarrow> Engine \<Rightarrow> Engine" where
  "restartMonitoring snapshot tick config r clk s =
     stopAlertSound (instrument_token tick)
       (clearInactive snapshot (instrument_token tick)
          (resetInactivityTimer tick config r clk
             (modify r (\<lambda>state. state\<lparr>baselinePrice := last_price tick\<rparr>) s)))"

text \<open>The body of \<^verbatim>\<open>latestTicks.forEach\<close> from line 257 on, for a token whose state exists at address \<open>r\<close>.\<close>

definition existingState :: "nat set \<Rightarrow> TickData \<Rightarrow> InactivityAlertConfig \<Rightarrow> bool \<Rightarrow> nat \<Rightarrow> Clock \<Rightarrow> Engine \<Rightarrow> Engine" where
  "existingState snapshot tick config shouldAlert r clk s =
     (let now = nowMs clk;
          checkDue = (now - lastMarketStatusCheck (heap s r) > 60000);
          s1 = (if checkDue then modify r (\<lambda>state. state\<lparr>lastMarketStatusCheck := now\<rparr>) s else s)
      in if checkDue \<and> wasMarketOpen (heap s1 r) \<noteq> shouldAlert then
           let s2 = modify r (\<lambda>state. state\<lparr>wasMarketOpen := shouldAlert\<rparr>) s1
           in if shouldAlert then restartMonitoring snapshot tick config r clk s2
              else cancelTimer r (stopAlertSound (instrument_token tick) s2)
         else if \<not> shouldAlert \<and> respectMarketHours config then
           cancelTimer r (stopAlertSound (instrument_token tick) s1)
         else
           let s2 = modify r (pushHistory tick now) s1;
               priceMoved = (\<bar>last_price tick - baselinePrice (heap s2 r)\<bar> > deviation config)
           in if priceMoved then restartMonitoring snapshot tick config r clk s2 else s2)"

text \<open>The body of \<^verbatim>\<open>latestTicks.forEach\<close>.\<close>

definition processTick :: "nat set \<Rightarrow> Clock \<Rightarrow> TickData \<Rightarrow> Engine \<Rightarrow> Engine" where
  "processTick snapshot clk tick s =
     (case configurations s (instrument_token tick) of
        None \<Rightarrow> clearSymbolState (instrument_token tick) s
      | Some config \<Rightarrow>
          if \<not> enabled config then clearSymbolState (instrument_token tick) s
          else
            let shouldAlert = shouldAlertFor tick config clk
            in case map_of (symbolStates s) (instrument_token tick) of
                 None \<Rightarrow>
                   let r = nextRef s;
                       s1 = s\<lparr>heap := (heap s)(r :=
                                \<lparr>baselinePrice = last_price tick, timerId = None,
                                 priceHistory = [(last_price tick, nowMs clk)],
                                 lastMarketStatusCheck = nowMs clk,
                                 wasMarketOpen = shouldAlert,
                                 oscillator = None, gainNode = None\<rparr>),
                              symbolStates := AList.update (instrument_token tick) r (symbolStates s),
                              nextRef := r + 1\<rparr>
                   in if shouldAlert then resetInactivityTimer tick config r clk s1 else s1
               | Some r \<Rightarrow> existingState snapshot tick config shouldAlert r clk s)"

text \<open>The effect, run for the array \<open>ticks\<close> the hook was rendered with.\<close>

definition effect :: "TickData list \<Rightarrow> Clock \<Rightarrow> Engine \<Rightarrow> Engine" where
  "effect tickArray clk s =
     fold (processTick (inactiveSymbols s) clk) (map snd (latestTicks tickArray)) s"

subsection \<open>The operations the hook returns\<close>

definition updateConfiguration :: "nat \<Rightarrow> InactivityAlertConfig \<Rightarrow> Engine \<Rightarrow> Engine" where
  "updateConfiguration token config s =
     clearSymbolState token (s\<lparr>configurations := (configurations s)(token \<mapsto> config)\<rparr>)"

definition clearAllAlerts :: "Engine \<Rightarrow> Engine" where
  "clearAllAlerts s =
     (fold (\<lambda>entry. stopAlertSound (fst entry)) (symbolStates s) (s\<lparr>inactivityAlerts := []\<rparr>))
       \<lparr>inactiveSymbols := {}\<rparr>"

subsection \<open>Runs of the hook\<close>

text \<open>
  Everything that can happen to one instance of the hook: the effect runs over an array
  of ticks, a pending timer fires, the user updates a configuration, clears the alerts
  or clicks for the first time.
\<close>

datatype Event =
    Effect "TickData list" Clock
  | TimerFired nat Clock
  | UpdateConfiguration nat InactivityAlertConfig
  | ClearAllAlerts
  | Click bool

fun step :: "Event \<Rightarrow> Engine \<Rightarrow> Engine" where
  "step (Effect tickArray clk) s = effect tickArray clk s"
| "step (TimerFired h clk) s = timerFired h clk s"
| "step (UpdateConfiguration token config) s = updateConfiguration token config s"
| "step ClearAllAlerts s = clearAllAlerts s"
| "step (Click ok) s = initAudio ok s"

definition run :: "Event list \<Rightarrow> Engine" where
  "run events = fold step events initialEngine"

section \<open>Invariants of the inactivity hook\<close>

text \<open>
  The timers are consistent with the monitor states: state objects are allocated below
  \<open>nextRef\<close>, no two tokens share an object, and every pending timer was issued below
  \<open>nextTimer\<close>, belongs to the object that \<open>symbolStates\<close> holds for its tick's token
  and is the timer that object's \<open>timerId\<close> names; the handles the objects hold were
  issued below \<open>nextTimer\<close>, and no two objects hold the same handle.
\<close>

definition timers_ok :: "Engine \<Rightarrow> bool" where
  "timers_ok s \<longleftrightarrow>
     distinct (map fst (symbolStates s))
     \<and> (\<forall>tok r. map_of (symbolStates s) tok = Some r \<longrightarrow> r < nextRef s)
     \<and> (\<forall>tok tok' r. map_of (symbolStates s) tok = Some r
            \<and> map_of (symbolStates s) tok' = Some r \<longrightarrow> tok = tok')
     \<and> (\<forall>h t. timers s h = Some t \<longrightarrow>
            h < nextTimer s
            \<and> map_of (symbolStates s) (instrument_token (timer_tick t)) = Some (timer_state t)
            \<and> timerId (heap s (timer_state t)) = Some h)
     \<and> (\<forall>tok r h. map_of (symbolStates s) tok = Some r \<and> timerId (heap s r) = Some h
            \<longrightarrow> h < nextTimer s)
     \<and> (\<forall>tok tok' r r' h. map_of (symbolStates s) tok = Some r
            \<and> map_of (symbolStates s) tok' = Some r'
            \<and> timerId (heap s r) = Some h \<and> timerId (heap s r') = Some h
            \<longrightarrow> tok = tok')"

text \<open>
  The sounds are consistent with the monitor states: the oscillators that play are those
  the state objects hold, each held by one object and created below \<open>nextNode\<close>.
\<close>

definition sounds_ok :: "Engine \<Rightarrow> bool" where
  "sounds_ok s \<longleftrightarrow>
     (\<forall>tok r osc. map_of (symbolStates s) tok = Some r \<and> oscillator (heap s r) = Some osc
        \<longrightarrow> osc < nextNode s \<and> osc \<in> playing s)
     \<and> (\<forall>osc \<in> playing s. \<exists>tok r. map_of (symbolStates s) tok = Some r
            \<and> oscillator (heap s r) = Some osc)
     \<and> (\<forall>tok tok' r r' osc. map_of (symbolStates s) tok = Some r
            \<and> map_of (symbolStates s) tok' = Some r'
            \<and> oscillator (heap s r) = Some osc \<and> oscillator (heap s r') = Some osc
            \<longrightarrow> tok = tok')"

definition wf :: "Engine \<Rightarrow> bool" where
  "wf s \<longleftrightarrow> timers_ok s \<and> sounds_ok s"

text \<open>The pending timers of a token.\<close>

definition timersOf :: "Engine \<Rightarrow> nat \<Rightarrow> nat set" where
  "timersOf s token = {h. \<exists>t. timers s h = Some t \<and> instrument_token (timer_tick t) = token}"

text \<open>
  What the hook holds for one token is the same in two states: its state object, its
  pending timers, its configuration, its inactive flag, and the alert log.
\<close>

definition same_for :: "nat \<Rightarrow> Engine \<Rightarrow> Engine \<Rightarrow> bool" where
  "same_for tok s s' \<longleftrightarrow>
     map_of (symbolStates s') tok = map_of (symbolStates s) tok
     \<and> (\<forall>r. map_of (symbolStates s) tok = Some r \<longrightarrow> heap s' r = heap s r)
     \<and> (\<forall>h t. instrument_token (timer_tick t) = tok
            \<longrightarrow> (timers s' h = Some t) = (timers s h = Some t))
     \<and> inactivityAlerts s' = inactivityAlerts s
     \<and> configurations s' = configurations s
     \<and> (tok \<in> inactiveSymbols s') = (tok \<in> inactiveSymbols s)"

section \<open>Example inputs\<close>

definition clock_at :: "int \<Rightarrow> Clock" where
  "clock_at t = \<lparr>nowMs = t, localeTime = ''10:00:00'', ist = monday_10am\<rparr>"

definition rawTick :: "nat option \<Rightarrow> real \<Rightarrow> JsTimestamp option \<Rightarrow> RawTick" where
  "rawTick tok price ts =
     \<lparr>raw_instrument_token = tok, raw_last_price = Some price, raw_volume_traded = None,
      raw_average_traded_price = None, raw_last_traded_quantity = None,
      raw_timestamp = ts, raw_tradingsymbol = None, raw_text = ''{}''\<rparr>"

definition batchOf :: "RawEntry list \<Rightarrow> Message" where
  "batchOf entries = \<lparr>rawData = ''[]'', parsed = Batch entries\<rparr>"

definition feedItem :: "real \<Rightarrow> jstime option \<Rightarrow> FeedItem" where
  "feedItem price t =
     \<lparr>ltpc = Some \<lparr>ltp = Some price, ltt = t, ltq = None, cp = None\<rparr>,
      ohlc_volume = None, item_volume = None\<rparr>"



text \<open>The Upstox connector after one tick of an instrument with timestamp 1000, and a later tick.\<close>

definition useen :: UConn where
  "useen = onmessage (clock_at 1000) (LiveFeed [(''NSE_EQ|X'', feedItem 10 (Some (Ms 1000)))]) initialUConn"

definition laterFeed :: "(string \<times> FeedItem) list" where
  "laterFeed = [(''NSE_EQ|X'', feedItem 11 (Some (Ms 1500)))]"

text \<open>A batch of three entries, the second of which has no instrument token.\<close>

definition scenarioD :: Message where
  "scenarioD = batchOf [Object (rawTick (Some 1) 10 None), Object (rawTick None 5 None),
                        Object (rawTick (Some 2) 20 None)]"

text \<open>
  Two attempts to connect, each ended by an error that closed the event source; the
  second attempt is the one the first reconnect timer started.
\<close>

definition twoFailures :: Conn where
  "twoFailures =
     onerror 4 CLOSED (clock_at 6000) (connectToSSE None (clock_at 5500)
       (onerror 1 CLOSED (clock_at 500) (connectToSSE None (clock_at 0) initialConn)))"

text \<open>
  The primary connector after one tick at time 1000 and the freeze timer that tick armed
  (handle 1) firing at time 6000; a batch with one tick, and the empty batch.
\<close>

definition oneTick :: Message where
  "oneTick = batchOf [Object (rawTick (Some 5) 10 None)]"

definition frozenConn :: Conn where
  "frozenConn = freezeFired 1 (clock_at 6000) (tickListener (clock_at 1000) oneTick initialConn)"

definition emptyBatch :: Message where
  "emptyBatch = batchOf []"

text \<open>The same for the Upstox connector.\<close>

definition frozenUConn :: UConn where
  "frozenUConn = u_freezeFired 1 (clock_at 31000) useen"

section \<open>Properties of the market timings\<close>




section \<open>Properties of the primary connector\<close>

subsection \<open>What the logging helpers leave alone\<close>

lemma addDebugInfo_fields [simp]:
  "pendingTimers (addDebugInfo clk m s) = pendingTimers s"
  "nextHandle (addDebugInfo clk m s) = nextHandle s"
  "freezeTimeoutRef (addDebugInfo clk m s) = freezeTimeoutRef s"
  "reconnectTimeoutRef (addDebugInfo clk m s) = reconnectTimeoutRef s"
  "connectionAttempts (addDebugInfo clk m s) = connectionAttempts s"
  "isFrozen (addDebugInfo clk m s) = isFrozen s"
  "alerts (addDebugInfo clk m s) = alerts s"
  "lastTickTimestamps (addDebugInfo clk m s) = lastTickTimestamps s"
  "connectionTimeoutOf (addDebugInfo clk m s) = connectionTimeoutOf s"
  by (simp_all add: addDebugInfo_def)

lemma addAlert_fields [simp]:
  "pendingTimers (addAlert clk ty m sev tok s) = pendingTimers s"
  "nextHandle (addAlert clk ty m sev tok s) = nextHandle s"
  "freezeTimeoutRef (addAlert clk ty m sev tok s) = freezeTimeoutRef s"
  "reconnectTimeoutRef (addAlert clk ty m sev tok s) = reconnectTimeoutRef s"
  "connectionAttempts (addAlert clk ty m sev tok s) = connectionAttempts s"
  "isFrozen (addAlert clk ty m sev tok s) = isFrozen s"
  "lastTickTimestamps (addAlert clk ty m sev tok s) = lastTickTimestamps s"
  "connectionTimeoutOf (addAlert clk ty m sev tok s) = connectionTimeoutOf s"
  by (simp_all add: addAlert_def Let_def)

lemma clearTimeout_fields [simp]:
  "nextHandle (clearTimeout h s) = nextHandle s"
  "freezeTimeoutRef (clearTimeout h s) = freezeTimeoutRef s"
  "reconnectTimeoutRef (clearTimeout h s) = reconnectTimeoutRef s"
  "connectionAttempts (clearTimeout h s) = connectionAttempts s"
  "isFrozen (clearTimeout h s) = isFrozen s"
  "alerts (clearTimeout h s) = alerts s"
  "pendingTimers (clearTimeout h s) = (pendingTimers s)(h := None)"
  by (simp_all add: clearTimeout_def)

lemma clearConnectionTimeout_fields [simp]:
  "nextHandle (clearConnectionTimeout es s) = nextHandle s"
  "reconnectTimeoutRef (clearConnectionTimeout es s) = reconnectTimeoutRef s"
  "connectionAttempts (clearConnectionTimeout es s) = connectionAttempts s"
  by (simp_all add: clearConnectionTimeout_def split: option.splits)

lemma processEntry_fields:
  "pendingTimers (snd (processEntry clk e acc)) = pendingTimers (snd acc)
   \<and> nextHandle (snd (processEntry clk e acc)) = nextHandle (snd acc)
   \<and> freezeTimeoutRef (snd (processEntry clk e acc)) = freezeTimeoutRef (snd acc)
   \<and> isFrozen (snd (processEntry clk e acc)) = isFrozen (snd acc)
   \<and> alerts (snd (processEntry clk e acc)) = alerts (snd acc)"
  by (cases acc; cases e) (simp_all add: processEntry_def Let_def)

lemma fold_processEntry_fields:
  "pendingTimers (snd (fold (processEntry clk) es acc)) = pendingTimers (snd acc)
   \<and> nextHandle (snd (fold (processEntry clk) es acc)) = nextHandle (snd acc)
   \<and> freezeTimeoutRef (snd (fold (processEntry clk) es acc)) = freezeTimeoutRef (snd acc)
   \<and> isFrozen (snd (fold (processEntry clk) es acc)) = isFrozen (snd acc)
   \<and> alerts (snd (fold (processEntry clk) es acc)) = alerts (snd acc)"
  by (induction es arbitrary: acc) (simp_all add: processEntry_fields)

text \<open>Parsing a batch touches no timer and not the frozen flag.\<close>

lemma processTickData_fields:
  "pendingTimers (snd (processTickData ev clk msg s)) = pendingTimers s
   \<and> nextHandle (snd (processTickData ev clk msg s)) = nextHandle s
   \<and> freezeTimeoutRef (snd (processTickData ev clk msg s)) = freezeTimeoutRef s
   \<and> isFrozen (snd (processTickData ev clk msg s)) = isFrozen s"
proof (cases "parsed msg")
  case (Batch es)
  define s2 where "s2 = addDebugInfo clk (MsgParsedArray (Some (length es)))
     ((addDebugInfo clk (MsgProcessing ev (length (rawData msg))) s)
        \<lparr>rawMessages := (''['' @ ev @ ''] '' @ take 100 (rawData msg) @ ''...'')
           # take (MAX_RAW_MESSAGES - 1)
               (rawMessages (addDebugInfo clk (MsgProcessing ev (length (rawData msg))) s))\<rparr>)"
  obtain out s3 where f: "fold (processEntry clk) es ([], s2) = (out, s3)"
    by (cases "fold (processEntry clk) es ([], s2)")
  have "pendingTimers s3 = pendingTimers s \<and> nextHandle s3 = nextHandle s
        \<and> freezeTimeoutRef s3 = freezeTimeoutRef s \<and> isFrozen s3 = isFrozen s"
    using fold_processEntry_fields [of clk es "([], s2)"] f by (simp add: s2_def)
  then show ?thesis
    using Batch f by (simp add: processTickData_def Let_def s2_def)
qed (simp_all add: processTickData_def Let_def)

text \<open>A batch that parses and raises no error records no alert.\<close>

lemma processTickData_batch_alerts:
  "parsed msg = Batch es \<Longrightarrow> alerts (snd (processTickData ev clk msg s)) = alerts s"
proof -
  assume b: "parsed msg = Batch es"
  define s2 where "s2 = addDebugInfo clk (MsgParsedArray (Some (length es)))
     ((addDebugInfo clk (MsgProcessing ev (length (rawData msg))) s)
        \<lparr>rawMessages := (''['' @ ev @ ''] '' @ take 100 (rawData msg) @ ''...'')
           # take (MAX_RAW_MESSAGES - 1)
               (rawMessages (addDebugInfo clk (MsgProcessing ev (length (rawData msg))) s))\<rparr>)"
  obtain out s3 where f: "fold (processEntry clk) es ([], s2) = (out, s3)"
    by (cases "fold (processEntry clk) es ([], s2)")
  have "alerts s3 = alerts s"
    using fold_processEntry_fields [of clk es "([], s2)"] f by (simp add: s2_def)
  then show ?thesis
    using b f by (simp add: processTickData_def Let_def s2_def)
qed

subsection \<open>Inter-tick delay\<close>

text \<open>The timestamp the primary connector gives the tick of an entry.\<close>

lemma processEntry_emits:
  assumes "truthy_num (raw_instrument_token tickData)"
  shows "\<exists>t s'. processEntry clk (Object tickData) (out, s) = (out @ [t], s')
      \<and> instrument_token t = the (raw_instrument_token tickData)
      \<and> timestamp t = (case raw_timestamp tickData of
                          None \<Rightarrow> Ms (nowMs clk)
                        | Some (TsNumber n) \<Rightarrow> if n = 0 then Ms (nowMs clk) else getTime n
                        | Some (TsString n) \<Rightarrow> n)
      \<and> delay t = (if truthy_time (lastTickTimestamps s (instrument_token t))
                   then Math_max0 (js_minus (timestamp t) (the (lastTickTimestamps s (instrument_token t))))
                   else Ms 0)
      \<and> lastTickTimestamps s' = (lastTickTimestamps s)(instrument_token t \<mapsto> timestamp t)"
  using assms
  by (auto simp add: processEntry_def Let_def truthy_num_def split: option.splits)







text \<open>A batch of one entry with a token gives one tick.\<close>

lemma processTickData_single:
  assumes "truthy_num (raw_instrument_token tickData)"
  shows "\<exists>t. fst (processTickData ev clk (batchOf [Object tickData]) s) = [t]"
proof -
  define s2 where "s2 = addDebugInfo clk (MsgParsedArray (Some (length [Object tickData])))
     ((addDebugInfo clk (MsgProcessing ev (length ''[]'')) s)
        \<lparr>rawMessages := (''['' @ ev @ ''] '' @ take 100 ''[]'' @ ''...'')
           # take (MAX_RAW_MESSAGES - 1)
               (rawMessages (addDebugInfo clk (MsgProcessing ev (length ''[]'')) s))\<rparr>)"
  obtain t s' where e: "processEntry clk (Object tickData) ([], s2) = ([] @ [t], s')"
    using processEntry_emits [OF assms, of clk "[]" s2] by blast
  have "fst (processTickData ev clk (batchOf [Object tickData]) s) = [t]"
    using e by (simp add: processTickData_def batchOf_def Let_def s2_def)
  then show ?thesis by blast
qed







subsection \<open>A batch with a malformed entry\<close>

text \<open>
  C9. The batch of scenario D, three entries of which the second has no instrument token,
  arrives at a fresh connector: the two valid ticks are emitted, but no alert is recorded
  and the debug log holds the three lines of a clean batch and none for the entry that
  was skipped.
\<close>

theorem scenarioD_skips_silently:
  "map instrument_token (fst (processTickData ''tick'' (clock_at 1000) scenarioD initialConn)) = [1, 2]
   \<and> alerts (snd (processTickData ''tick'' (clock_at 1000) scenarioD initialConn)) = []
   \<and> map snd (debugInfo (snd (processTickData ''tick'' (clock_at 1000) scenarioD initialConn)))
       = [MsgProcessed 2 2, MsgParsedArray (Some 3), MsgProcessing ''tick'' 2]"
  by (simp add: scenarioD_def processTickData_def batchOf_def processEntry_def rawTick_def Let_def
      truthy_num_def initialConn_def clock_at_def addDebugInfo_def or0_def truthy_str_def
      MAX_DEBUG_INFO_def)

subsection \<open>Reconnection\<close>

lemma connectToSSE_attempts:
  "connectionAttempts (connectToSSE createFails clk s) = connectionAttempts s + 1"
  by (simp add: connectToSSE_def setTimeout_def Let_def split: option.splits)


lemma onerror_closed:
  "reconnectTimeoutRef (onerror es CLOSED clk s) = Some (nextHandle s)
   \<and> pendingTimers (onerror es CLOSED clk s) (nextHandle s)
       = Some \<lparr>callback = ReconnectCb, setAt = nowMs clk,
               delayMs = reconnectDelay (connectionAttempts s)\<rparr>
   \<and> connectionAttempts (onerror es CLOSED clk s) = connectionAttempts s
   \<and> nextHandle (onerror es CLOSED clk s) = nextHandle s + 1"
  by (simp add: onerror_def setTimeout_def Let_def split: option.splits)

lemma twoFailures_attempts: "connectionAttempts twoFailures = 2"
  by (simp add: twoFailures_def onerror_closed connectToSSE_attempts initialConn_def)

lemma connectToSSE_created:
  "eventSourceRef (connectToSSE None clk s) = Some (nextHandle s)
   \<and> connectionTimeoutOf (connectToSSE None clk s) (nextHandle s) = Some (nextHandle s + 1)
   \<and> nextHandle (connectToSSE None clk s) = nextHandle s + 2
   \<and> reconnectTimeoutRef (connectToSSE None clk s) = reconnectTimeoutRef s
   \<and> pendingTimers (connectToSSE None clk s) (nextHandle s + 1)
       = Some \<lparr>callback = ConnectionTimeoutCb (nextHandle s), setAt = nowMs clk,
               delayMs = 15000\<rparr>"
  by (simp add: connectToSSE_def setTimeout_def addDebugInfo_def Let_def split: option.splits)

lemma onerror_not_closed:
  assumes "readyState \<noteq> CLOSED"
  shows "reconnectTimeoutRef (onerror es readyState clk s) = reconnectTimeoutRef s
   \<and> nextHandle (onerror es readyState clk s) = nextHandle s
   \<and> pendingTimers (onerror es readyState clk s)
       = (case connectionTimeoutOf s es of None \<Rightarrow> pendingTimers s
          | Some h \<Rightarrow> (pendingTimers s)(h := None))"
  using assms
  by (simp add: onerror_def clearConnectionTimeout_def clearTimeout_def addDebugInfo_def Let_def
      split: option.splits)

lemma connectionTimeoutFired_timers:
  "reconnectTimeoutRef (connectionTimeoutFired es readyState clk s) = reconnectTimeoutRef s
   \<and> nextHandle (connectionTimeoutFired es readyState clk s) = nextHandle s
   \<and> pendingTimers (connectionTimeoutFired es readyState clk s) = pendingTimers s"
  by (simp add: connectionTimeoutFired_def)

lemma twoFailures_handles: "nextHandle twoFailures = 7 \<and> reconnectTimeoutRef twoFailures = Some 6"
  by (simp add: twoFailures_def onerror_closed connectToSSE_created initialConn_def)



text \<open>
  C7 as stated fails: two attempts have failed and the third attempt (event source 7,
  connection timeout 8) is under way. An error event that finds the event source
  \<^verbatim>\<open>CONNECTING\<close> only cancels the connection timeout: no timer is created and the
  reconnect reference still holds the timer of the second reconnect, which has fired.
  Nor does the connection timeout itself, when it closes the event source after 15 seconds,
  schedule anything.
\<close>

theorem third_reconnect_counterexample:
  "connectionAttempts twoFailures = 2
   \<and> eventSourceRef (connectToSSE None (clock_at 16000) twoFailures) = Some 7
   \<and> nextHandle (onerror 7 CONNECTING (clock_at 16500)
         (connectToSSE None (clock_at 16000) twoFailures))
       = nextHandle (connectToSSE None (clock_at 16000) twoFailures)
   \<and> reconnectTimeoutRef (onerror 7 CONNECTING (clock_at 16500)
         (connectToSSE None (clock_at 16000) twoFailures))
       = reconnectTimeoutRef twoFailures
   \<and> pendingTimers (onerror 7 CONNECTING (clock_at 16500)
         (connectToSSE None (clock_at 16000) twoFailures))
       = (pendingTimers (connectToSSE None (clock_at 16000) twoFailures))(8 := None)
   \<and> nextHandle (connectionTimeoutFired 7 CONNECTING (clock_at 31000)
         (connectToSSE None (clock_at 16000) twoFailures))
       = nextHandle (connectToSSE None (clock_at 16000) twoFailures)
   \<and> reconnectTimeoutRef (connectionTimeoutFired 7 CONNECTING (clock_at 31000)
         (connectToSSE None (clock_at 16000) twoFailures))
       = reconnectTimeoutRef twoFailures
   \<and> pendingTimers (connectionTimeoutFired 7 CONNECTING (clock_at 31000)
         (connectToSSE None (clock_at 16000) twoFailures))
       = pendingTimers (connectToSSE None (clock_at 16000) twoFailures)"
  using connectToSSE_created [of "clock_at 16000" twoFailures] twoFailures_handles
  by (simp add: twoFailures_attempts onerror_not_closed connectionTimeoutFired_timers)

subsection \<open>The freeze watchdog\<close>

lemma feedEntry_fields:
  "u_pendingTimers (snd (feedEntry clk e acc)) = u_pendingTimers (snd acc)
   \<and> freezeTimer (snd (feedEntry clk e acc)) = freezeTimer (snd acc)
   \<and> u_nextHandle (snd (feedEntry clk e acc)) = u_nextHandle (snd acc)
   \<and> u_isFrozen (snd (feedEntry clk e acc)) = u_isFrozen (snd acc)"
  by (cases acc; cases e) (simp add: feedEntry_def Let_def split: option.splits)

lemma fold_feedEntry_fields:
  "u_pendingTimers (snd (fold (feedEntry clk) es acc)) = u_pendingTimers (snd acc)
   \<and> freezeTimer (snd (fold (feedEntry clk) es acc)) = freezeTimer (snd acc)
   \<and> u_nextHandle (snd (fold (feedEntry clk) es acc)) = u_nextHandle (snd acc)
   \<and> u_isFrozen (snd (fold (feedEntry clk) es acc)) = u_isFrozen (snd acc)"
  by (induction es arbitrary: acc) (simp_all add: feedEntry_fields)

lemma feedEntry_grows:
  "fst acc \<noteq> [] \<or> yieldsTick e \<Longrightarrow> fst (feedEntry clk e acc) \<noteq> []"
  by (cases acc; cases e) (auto simp add: feedEntry_def yieldsTick_def Let_def split: option.splits)

lemma fold_feedEntry_grows:
  "fst acc \<noteq> [] \<or> (\<exists>e \<in> set es. yieldsTick e) \<Longrightarrow> fst (fold (feedEntry clk) es acc) \<noteq> []"
proof (induction es arbitrary: acc)
  case Nil
  then show ?case by simp
next
  case (Cons e es)
  have "fst (feedEntry clk e acc) \<noteq> [] \<or> (\<exists>e \<in> set es. yieldsTick e)"
    using Cons.prems feedEntry_grows [of acc e clk] by auto
  from Cons.IH [OF this] show ?case by simp
qed

lemma scheduleFreeze_arms:
  "freezeTimer (scheduleFreeze clk s) = Some (u_nextHandle s)
   \<and> u_pendingTimers (scheduleFreeze clk s) (u_nextHandle s) = Some (nowMs clk, FREEZE_TIMEOUT)
   \<and> (\<forall>h. freezeTimer s = Some h \<and> h \<noteq> u_nextHandle s
          \<longrightarrow> u_pendingTimers (scheduleFreeze clk s) h = None)
   \<and> u_isFrozen (scheduleFreeze clk s) = u_isFrozen s
   \<and> u_nextHandle (scheduleFreeze clk s) = u_nextHandle s + 1"
  by (simp add: scheduleFreeze_def Let_def split: option.splits)

lemma onmessage_rearms:
  "freezeTimer (onmessage clk payload s) = Some (u_nextHandle s)
   \<and> u_pendingTimers (onmessage clk payload s) (u_nextHandle s) = Some (nowMs clk, FREEZE_TIMEOUT)
   \<and> (\<forall>h. freezeTimer s = Some h \<and> h \<noteq> u_nextHandle s
          \<longrightarrow> u_pendingTimers (onmessage clk payload s) h = None)
   \<and> u_nextHandle (onmessage clk payload s) = u_nextHandle s + 1"
proof (cases payload)
  case (LiveFeed feeds)
  obtain out s2 where f: "fold (feedEntry clk) feeds ([], scheduleFreeze clk s) = (out, s2)"
    by (cases "fold (feedEntry clk) feeds ([], scheduleFreeze clk s)")
  have "u_pendingTimers s2 = u_pendingTimers (scheduleFreeze clk s)
        \<and> freezeTimer s2 = freezeTimer (scheduleFreeze clk s)
        \<and> u_nextHandle s2 = u_nextHandle (scheduleFreeze clk s)"
    using fold_feedEntry_fields [of clk feeds "([], scheduleFreeze clk s)"] f by simp
  then show ?thesis
    using LiveFeed f scheduleFreeze_arms [of clk s] by (simp add: onmessage_def Let_def)
next
  case (UThrows err)
  then show ?thesis
    using scheduleFreeze_arms [of clk s] by (simp add: onmessage_def Let_def u_addAlert_def)
next
  case OtherPayload
  then show ?thesis
    using scheduleFreeze_arms [of clk s] by (simp add: onmessage_def Let_def)
qed

lemma onmessage_unfreezes:
  assumes "\<exists>e \<in> set feeds. yieldsTick e"
  shows "\<not> u_isFrozen (onmessage clk (LiveFeed feeds) s)"
proof -
  obtain out s2 where f: "fold (feedEntry clk) feeds ([], scheduleFreeze clk s) = (out, s2)"
    by (cases "fold (feedEntry clk) feeds ([], scheduleFreeze clk s)")
  have "fst (fold (feedEntry clk) feeds ([], scheduleFreeze clk s)) \<noteq> []"
    by (rule fold_feedEntry_grows) (rule disjI2, rule assms)
  then have ne: "out \<noteq> []" by (simp add: f)
  have "onmessage clk (LiveFeed feeds) s
          = s2\<lparr>u_ticks := take MAX_TICKS (out @ u_ticks s2), u_isFrozen := False\<rparr>"
    unfolding onmessage_def Let_def by (simp add: f ne)
  then show ?thesis by simp
qed

lemma tickListener_rearms:
  assumes "fst (processTickData ''tick'' clk msg s) \<noteq> []"
  shows "\<not> isFrozen (tickListener clk msg s)
     \<and> freezeTimeoutRef (tickListener clk msg s) = Some (nextHandle s)
     \<and> pendingTimers (tickListener clk msg s) (nextHandle s)
         = Some \<lparr>callback = FreezeCb, setAt = nowMs clk, delayMs = 5000\<rparr>
     \<and> (\<forall>h. freezeTimeoutRef s = Some h \<and> h \<noteq> nextHandle s
            \<longrightarrow> pendingTimers (tickListener clk msg s) h = None)
     \<and> nextHandle (tickListener clk msg s) = nextHandle s + 1"
proof -
  obtain out s1 where p: "processTickData ''tick'' clk msg s = (out, s1)"
    by (cases "processTickData ''tick'' clk msg s")
  have flds: "pendingTimers s1 = pendingTimers s" "nextHandle s1 = nextHandle s"
      "freezeTimeoutRef s1 = freezeTimeoutRef s"
    using processTickData_fields [of "''tick''" clk msg s] by (simp_all only: p snd_conv)
  have ne: "out \<noteq> []" using assms by (simp add: p)
  define s2 where "s2 = s1\<lparr>ticks := take MAX_TICKS_STORED (out @ ticks s1),
                       totalTicks := totalTicks s1 + length out,
                       lastTickTime := Some (nowMs clk),
                       isFrozen := False\<rparr>"
  define s3 where "s3 = (if filter (\<lambda>tick. js_greater (delay tick) DELAY_THRESHOLD) out \<noteq> []
                     then addAlert clk DelayAlert
                            (MsgHighDelay (length (filter (\<lambda>tick. js_greater (delay tick) DELAY_THRESHOLD) out)))
                            Medium None s2
                     else s2)"
  define s4 where "s4 = (case freezeTimeoutRef s3 of None \<Rightarrow> s3 | Some h \<Rightarrow> clearTimeout h s3)"
  have tl: "tickListener clk msg s = (snd (setTimeout clk FreezeCb (real_of_int FREEZE_THRESHOLD) s4))
        \<lparr>freezeTimeoutRef := Some (fst (setTimeout clk FreezeCb (real_of_int FREEZE_THRESHOLD) s4))\<rparr>"
    by (simp only: tickListener_def p prod.case Let_def setTimeout_def fst_conv snd_conv
        s4_def s3_def s2_def ne if_True not_False_eq_True not_True_eq_False if_False refl)
  have s3f: "pendingTimers s3 = pendingTimers s" "nextHandle s3 = nextHandle s"
      "freezeTimeoutRef s3 = freezeTimeoutRef s" "\<not> isFrozen s3"
    by (simp_all add: s3_def s2_def flds)
  have s4f: "nextHandle s4 = nextHandle s" "\<not> isFrozen s4"
    "\<forall>h. freezeTimeoutRef s = Some h \<longrightarrow> pendingTimers s4 h = None"
    by (simp_all add: s4_def s3f split: option.splits)
  show ?thesis
    unfolding tl using s4f by (simp add: setTimeout_def FREEZE_THRESHOLD_def)
qed

text \<open>A message that yields no tick leaves the frozen flag and the watchdog as they were.\<close>

lemma tickListener_no_ticks:
  assumes "fst (processTickData ''tick'' clk msg s) = []"
  shows "isFrozen (tickListener clk msg s) = isFrozen s
     \<and> freezeTimeoutRef (tickListener clk msg s) = freezeTimeoutRef s
     \<and> pendingTimers (tickListener clk msg s) = pendingTimers s"
proof -
  obtain out s1 where p: "processTickData ''tick'' clk msg s = (out, s1)"
    by (cases "processTickData ''tick'' clk msg s")
  have e: "out = []" using assms by (simp add: p)
  have "tickListener clk msg s = s1"
    by (simp add: tickListener_def p e)
  then show ?thesis
    using processTickData_fields [of "''tick''" clk msg s] by (simp add: p)
qed

lemma oneTick_yields: "\<exists>t. fst (processTickData ''tick'' clk oneTick s) = [t]"
proof -
  have "truthy_num (raw_instrument_token (rawTick (Some 5) 10 None))"
    by (simp add: rawTick_def truthy_num_def)
  from processTickData_single [OF this] show ?thesis by (simp add: oneTick_def)
qed

lemma emptyBatch_yields: "fst (processTickData ''tick'' clk emptyBatch s) = []"
  by (simp add: emptyBatch_def batchOf_def processTickData_def Let_def)

lemma frozenConn_facts:
  "isFrozen frozenConn \<and> freezeTimeoutRef frozenConn = Some 1 \<and> nextHandle frozenConn = 2
   \<and> pendingTimers frozenConn 1 = None"
proof -
  obtain t where "fst (processTickData ''tick'' (clock_at 1000) oneTick initialConn) = [t]"
    using oneTick_yields by blast
  then have "fst (processTickData ''tick'' (clock_at 1000) oneTick initialConn) \<noteq> []" by simp
  from tickListener_rearms [OF this] show ?thesis
    by (simp add: frozenConn_def freezeFired_def initialConn_def)
qed

lemma frozenUConn_facts:
  "u_isFrozen frozenUConn \<and> freezeTimer frozenUConn = Some 1 \<and> u_nextHandle frozenUConn = 2
   \<and> u_pendingTimers frozenUConn 1 = None"
  using onmessage_rearms [of "clock_at 1000" "LiveFeed [(''NSE_EQ|X'', feedItem 10 (Some (Ms 1000)))]" initialUConn]
  by (simp add: frozenUConn_def u_freezeFired_def u_addAlert_def useen_def initialUConn_def)

text \<open>
  C6 (as amended). On the primary feed, a message that yields at least one tick clears
  the frozen flag, cancels the pending freeze timer and arms a new one of 5000 ms. On the
  Upstox feed, every message cancels the pending freeze timer and arms a new one of
  30000 ms, and a live-feed message that yields at least one tick clears the frozen flag.
\<close>

theorem message_rearms_watchdog:
  "(fst (processTickData ''tick'' clk msg s) \<noteq> [] \<longrightarrow>
      \<not> isFrozen (tickListener clk msg s)
      \<and> freezeTimeoutRef (tickListener clk msg s) = Some (nextHandle s)
      \<and> pendingTimers (tickListener clk msg s) (nextHandle s)
          = Some \<lparr>callback = FreezeCb, setAt = nowMs clk, delayMs = 5000\<rparr>
      \<and> (\<forall>h. freezeTimeoutRef s = Some h \<and> h \<noteq> nextHandle s
             \<longrightarrow> pendingTimers (tickListener clk msg s) h = None))
   \<and> freezeTimer (onmessage clk payload us) = Some (u_nextHandle us)
   \<and> u_pendingTimers (onmessage clk payload us) (u_nextHandle us) = Some (nowMs clk, 30000)
   \<and> (\<forall>h. freezeTimer us = Some h \<and> h \<noteq> u_nextHandle us
          \<longrightarrow> u_pendingTimers (onmessage clk payload us) h = None)
   \<and> ((\<exists>e \<in> set feeds. yieldsTick e) \<longrightarrow> \<not> u_isFrozen (onmessage clk (LiveFeed feeds) us))"
proof -
  have a: "fst (processTickData ''tick'' clk msg s) \<noteq> [] \<longrightarrow>
      \<not> isFrozen (tickListener clk msg s)
      \<and> freezeTimeoutRef (tickListener clk msg s) = Some (nextHandle s)
      \<and> pendingTimers (tickListener clk msg s) (nextHandle s)
          = Some \<lparr>callback = FreezeCb, setAt = nowMs clk, delayMs = 5000\<rparr>
      \<and> (\<forall>h. freezeTimeoutRef s = Some h \<and> h \<noteq> nextHandle s
             \<longrightarrow> pendingTimers (tickListener clk msg s) h = None)"
    using tickListener_rearms [of clk msg s] by blast
  have b: "freezeTimer (onmessage clk payload us) = Some (u_nextHandle us)
   \<and> u_pendingTimers (onmessage clk payload us) (u_nextHandle us) = Some (nowMs clk, 30000)
   \<and> (\<forall>h. freezeTimer us = Some h \<and> h \<noteq> u_nextHandle us
          \<longrightarrow> u_pendingTimers (onmessage clk payload us) h = None)"
    using onmessage_rearms [of clk payload us] by (simp add: FREEZE_TIMEOUT_def)
  have c: "(\<exists>e \<in> set feeds. yieldsTick e) \<longrightarrow> \<not> u_isFrozen (onmessage clk (LiveFeed feeds) us)"
    using onmessage_unfreezes [of feeds clk us] by blast
  from a b c show ?thesis by blast
qed

theorem message_rearms_watchdog_witness:
  "isFrozen frozenConn \<and> freezeTimeoutRef frozenConn = Some 1
   \<and> fst (processTickData ''tick'' (clock_at 7000) oneTick frozenConn) \<noteq> []
   \<and> \<not> isFrozen (tickListener (clock_at 7000) oneTick frozenConn)
   \<and> freezeTimeoutRef (tickListener (clock_at 7000) oneTick frozenConn) = Some 2
   \<and> pendingTimers (tickListener (clock_at 7000) oneTick frozenConn) 2
       = Some \<lparr>callback = FreezeCb, setAt = 7000, delayMs = 5000\<rparr>
   \<and> pendingTimers (tickListener (clock_at 7000) oneTick frozenConn) 1 = None
   \<and> u_isFrozen frozenUConn \<and> freezeTimer frozenUConn = Some 1
   \<and> yieldsTick (''NSE_EQ|X'', feedItem 11 (Some (Ms 1500)))
   \<and> \<not> u_isFrozen (onmessage (clock_at 32000) (LiveFeed laterFeed) frozenUConn)
   \<and> freezeTimer (onmessage (clock_at 32000) (LiveFeed laterFeed) frozenUConn) = Some 2
   \<and> u_pendingTimers (onmessage (clock_at 32000) (LiveFeed laterFeed) frozenUConn) 2
       = Some (32000, 30000)
   \<and> u_pendingTimers (onmessage (clock_at 32000) (LiveFeed laterFeed) frozenUConn) 1 = None"
proof -
  obtain t where "fst (processTickData ''tick'' (clock_at 7000) oneTick frozenConn) = [t]"
    using oneTick_yields by blast
  then have h1: "fst (processTickData ''tick'' (clock_at 7000) oneTick frozenConn) \<noteq> []" by simp
  have h2: "yieldsTick (''NSE_EQ|X'', feedItem 11 (Some (Ms 1500)))"
    by (simp add: yieldsTick_def feedItem_def truthy_num_def)
  then have h3: "\<exists>e \<in> set laterFeed. yieldsTick e" by (simp add: laterFeed_def)
  note inst1 = message_rearms_watchdog [of "clock_at 7000" oneTick frozenConn
      "LiveFeed laterFeed" frozenUConn laterFeed]
  note inst2 = message_rearms_watchdog [of "clock_at 32000" oneTick frozenConn
      "LiveFeed laterFeed" frozenUConn laterFeed]
  from inst1 inst2 h1 h2 h3 frozenConn_facts frozenUConn_facts
  show ?thesis by (simp add: clock_at_def)
qed

text \<open>
  C6 as stated fails: the primary connector is frozen and a message arrives whose batch
  is the empty array. It parses without error and records no alert, yet the frozen flag
  stays set and no freeze timer is armed.
\<close>

theorem empty_batch_counterexample:
  "parsed emptyBatch = Batch []
   \<and> isFrozen frozenConn
   \<and> alerts (snd (processTickData ''tick'' (clock_at 7000) emptyBatch frozenConn)) = alerts frozenConn
   \<and> isFrozen (tickListener (clock_at 7000) emptyBatch frozenConn)
   \<and> freezeTimeoutRef (tickListener (clock_at 7000) emptyBatch frozenConn) = Some 1
   \<and> pendingTimers (tickListener (clock_at 7000) emptyBatch frozenConn) 1 = None"
proof -
  have p: "parsed emptyBatch = Batch []" by (simp add: emptyBatch_def batchOf_def)
  from tickListener_no_ticks [OF emptyBatch_yields, of "clock_at 7000" frozenConn]
       processTickData_batch_alerts [OF p, of "''tick''" "clock_at 7000" frozenConn]
       frozenConn_facts p
  show ?thesis by simp
qed

section \<open>Properties of the inactivity hook\<close>

subsection \<open>The invariants hold in every run\<close>

lemma timers_ok_same_view:
  assumes "timers_ok s"
    and "symbolStates s' = symbolStates s" and "nextRef s' = nextRef s"
    and "timers s' = timers s" and "nextTimer s' = nextTimer s"
    and "\<And>r. timerId (heap s' r) = timerId (heap s r)"
  shows "timers_ok s'"
  using assms unfolding timers_ok_def by simp

lemma sounds_ok_same_view:
  assumes "sounds_ok s"
    and "symbolStates s' = symbolStates s" and "nextNode s' = nextNode s"
    and "playing s' = playing s"
    and "\<And>r. oscillator (heap s' r) = oscillator (heap s r)"
  shows "sounds_ok s'"
  using assms unfolding sounds_ok_def by simp

lemma stopAlertSound_timer_view [simp]:
  "symbolStates (stopAlertSound tok s) = symbolStates s"
  "nextRef (stopAlertSound tok s) = nextRef s"
  "timers (stopAlertSound tok s) = timers s"
  "nextTimer (stopAlertSound tok s) = nextTimer s"
  "timerId (heap (stopAlertSound tok s) r) = timerId (heap s r)"
  "configurations (stopAlertSound tok s) = configurations s"
  "inactivityAlerts (stopAlertSound tok s) = inactivityAlerts s"
  "inactiveSymbols (stopAlertSound tok s) = inactiveSymbols s"
  "audioContext (stopAlertSound tok s) = audioContext s"
  "nextNode (stopAlertSound tok s) = nextNode s"
  "baselinePrice (heap (stopAlertSound tok s) r) = baselinePrice (heap s r)"
  "priceHistory (heap (stopAlertSound tok s) r) = priceHistory (heap s r)"
  "lastMarketStatusCheck (heap (stopAlertSound tok s) r) = lastMarketStatusCheck (heap s r)"
  "wasMarketOpen (heap (stopAlertSound tok s) r) = wasMarketOpen (heap s r)"
  by (simp_all add: stopAlertSound_def modify_def split: option.splits)

lemma timers_ok_stopAlertSound: "timers_ok s \<Longrightarrow> timers_ok (stopAlertSound tok s)"
  by (erule timers_ok_same_view) simp_all

lemma sounds_ok_stopAlertSound:
  assumes "timers_ok s" and "sounds_ok s"
  shows "sounds_ok (stopAlertSound tok s)"
proof (cases "map_of (symbolStates s) tok")
  case None
  then show ?thesis using assms by (simp add: stopAlertSound_def)
next
  case (Some r)
  note look = Some
  show ?thesis
  proof (cases "oscillator (heap s r)")
    case None
    then show ?thesis using assms look by (simp add: stopAlertSound_def)
  next
    case (Some osc)
    define s' where "s' = stopAlertSound tok s"
    have inj: "\<And>tok'. map_of (symbolStates s) tok' = Some r \<Longrightarrow> tok' = tok"
      using assms(1) look unfolding timers_ok_def by blast
    have A: "\<And>t1 r1 o1. map_of (symbolStates s) t1 = Some r1 \<Longrightarrow> oscillator (heap s r1) = Some o1
               \<Longrightarrow> o1 < nextNode s \<and> o1 \<in> playing s"
      using assms(2) unfolding sounds_ok_def by blast
    have B: "\<And>o1. o1 \<in> playing s \<Longrightarrow> \<exists>t1 r1. map_of (symbolStates s) t1 = Some r1
               \<and> oscillator (heap s r1) = Some o1"
      using assms(2) unfolding sounds_ok_def by blast
    have C: "\<And>t1 t2 r1 r2 o1. map_of (symbolStates s) t1 = Some r1 \<Longrightarrow>
               map_of (symbolStates s) t2 = Some r2 \<Longrightarrow> oscillator (heap s r1) = Some o1 \<Longrightarrow>
               oscillator (heap s r2) = Some o1 \<Longrightarrow> t1 = t2"
      using assms(2) unfolding sounds_ok_def by blast
    have sy: "symbolStates s' = symbolStates s" and nn: "nextNode s' = nextNode s"
      by (simp_all add: s'_def)
    have pl: "playing s' = playing s - {osc}"
      using Some look by (simp add: s'_def stopAlertSound_def modify_def)
    have hr: "oscillator (heap s' r) = None"
      using Some look by (simp add: s'_def stopAlertSound_def modify_def)
    have ho: "\<And>r1. r1 \<noteq> r \<Longrightarrow> oscillator (heap s' r1) = oscillator (heap s r1)"
      using Some look by (simp add: s'_def stopAlertSound_def modify_def)
    have other: "\<And>t1 r1 o1. map_of (symbolStates s) t1 = Some r1 \<Longrightarrow>
               oscillator (heap s' r1) = Some o1 \<Longrightarrow>
               r1 \<noteq> r \<and> oscillator (heap s r1) = Some o1 \<and> o1 \<noteq> osc"
    proof -
      fix t1 r1 o1
      assume l1: "map_of (symbolStates s) t1 = Some r1" and o1: "oscillator (heap s' r1) = Some o1"
      have ne: "r1 \<noteq> r" using o1 hr by auto
      then have old: "oscillator (heap s r1) = Some o1" using o1 ho by simp
      have "o1 \<noteq> osc"
      proof
        assume "o1 = osc"
        then have "t1 = tok" using C [OF l1 look] old Some by simp
        then show False using l1 look ne by simp
      qed
      then show "r1 \<noteq> r \<and> oscillator (heap s r1) = Some o1 \<and> o1 \<noteq> osc"
        using ne old by simp
    qed
    have "sounds_ok s'"
      unfolding sounds_ok_def sy nn pl
    proof (intro conjI allI impI ballI)
      fix t1 r1 o1
      assume "map_of (symbolStates s) t1 = Some r1 \<and> oscillator (heap s' r1) = Some o1"
      then have l1: "map_of (symbolStates s) t1 = Some r1"
        and o1: "oscillator (heap s' r1) = Some o1" by simp_all
      from other [OF l1 o1] A [OF l1]
      show "o1 < nextNode s" by blast
      from other [OF l1 o1] A [OF l1]
      show "o1 \<in> playing s - {osc}" by blast
    next
      fix o1
      assume "o1 \<in> playing s - {osc}"
      then have p: "o1 \<in> playing s" and ne: "o1 \<noteq> osc" by simp_all
      from B [OF p] obtain t1 r1 where l1: "map_of (symbolStates s) t1 = Some r1"
        and old: "oscillator (heap s r1) = Some o1" by blast
      have "r1 \<noteq> r" using old Some ne by auto
      then have "oscillator (heap s' r1) = Some o1" using old ho by simp
      then show "\<exists>t1 r1. map_of (symbolStates s) t1 = Some r1 \<and> oscillator (heap s' r1) = Some o1"
        using l1 by blast
    next
      fix t1 t2 r1 r2 o1
      assume "map_of (symbolStates s) t1 = Some r1 \<and> map_of (symbolStates s) t2 = Some r2
              \<and> oscillator (heap s' r1) = Some o1 \<and> oscillator (heap s' r2) = Some o1"
      then have l1: "map_of (symbolStates s) t1 = Some r1"
        and l2: "map_of (symbolStates s) t2 = Some r2"
        and o1: "oscillator (heap s' r1) = Some o1"
        and o2: "oscillator (heap s' r2) = Some o1" by simp_all
      from other [OF l1 o1] other [OF l2 o2] C [OF l1 l2]
      show "t1 = t2" by blast
    qed
    then show ?thesis by (simp add: s'_def)
  qed
qed

lemma timers_okD:
  assumes "timers_ok s"
  shows "distinct (map fst (symbolStates s))"
    and "\<And>tok r. map_of (symbolStates s) tok = Some r \<Longrightarrow> r < nextRef s"
    and "\<And>tok tok' r. map_of (symbolStates s) tok = Some r \<Longrightarrow>
           map_of (symbolStates s) tok' = Some r \<Longrightarrow> tok = tok'"
    and "\<And>h t. timers s h = Some t \<Longrightarrow> h < nextTimer s"
    and "\<And>h t. timers s h = Some t \<Longrightarrow>
           map_of (symbolStates s) (instrument_token (timer_tick t)) = Some (timer_state t)"
    and "\<And>h t. timers s h = Some t \<Longrightarrow> timerId (heap s (timer_state t)) = Some h"
    and "\<And>tok r h. map_of (symbolStates s) tok = Some r \<Longrightarrow> timerId (heap s r) = Some h
           \<Longrightarrow> h < nextTimer s"
    and "\<And>t1 t2 r1 r2 h. map_of (symbolStates s) t1 = Some r1 \<Longrightarrow>
           map_of (symbolStates s) t2 = Some r2 \<Longrightarrow> timerId (heap s r1) = Some h \<Longrightarrow>
           timerId (heap s r2) = Some h \<Longrightarrow> t1 = t2"
  using assms unfolding timers_ok_def by blast+

lemma timers_okI:
  assumes "distinct (map fst (symbolStates s))"
    and "\<And>tok r. map_of (symbolStates s) tok = Some r \<Longrightarrow> r < nextRef s"
    and "\<And>tok tok' r. map_of (symbolStates s) tok = Some r \<Longrightarrow>
           map_of (symbolStates s) tok' = Some r \<Longrightarrow> tok = tok'"
    and "\<And>h t. timers s h = Some t \<Longrightarrow> h < nextTimer s"
    and "\<And>h t. timers s h = Some t \<Longrightarrow>
           map_of (symbolStates s) (instrument_token (timer_tick t)) = Some (timer_state t)"
    and "\<And>h t. timers s h = Some t \<Longrightarrow> timerId (heap s (timer_state t)) = Some h"
    and "\<And>tok r h. map_of (symbolStates s) tok = Some r \<Longrightarrow> timerId (heap s r) = Some h
           \<Longrightarrow> h < nextTimer s"
    and "\<And>t1 t2 r1 r2 h. map_of (symbolStates s) t1 = Some r1 \<Longrightarrow>
           map_of (symbolStates s) t2 = Some r2 \<Longrightarrow> timerId (heap s r1) = Some h \<Longrightarrow>
           timerId (heap s r2) = Some h \<Longrightarrow> t1 = t2"
  shows "timers_ok s"
  using assms unfolding timers_ok_def by blast

lemma timers_ok_remove:
  assumes "timers_ok s"
  shows "timers_ok (s\<lparr>timers := (timers s)(h := None)\<rparr>)"
proof (rule timers_okI)
  fix h' t
  assume "timers (s\<lparr>timers := (timers s)(h := None)\<rparr>) h' = Some t"
  then have old: "timers s h' = Some t" by (simp split: if_splits)
  show "h' < nextTimer (s\<lparr>timers := (timers s)(h := None)\<rparr>)"
    using timers_okD(4) [OF assms old] by simp
  show "map_of (symbolStates (s\<lparr>timers := (timers s)(h := None)\<rparr>))
          (instrument_token (timer_tick t)) = Some (timer_state t)"
    using timers_okD(5) [OF assms old] by simp
  show "timerId (heap (s\<lparr>timers := (timers s)(h := None)\<rparr>) (timer_state t)) = Some h'"
    using timers_okD(6) [OF assms old] by simp
next
  fix tok r h'
  assume "map_of (symbolStates (s\<lparr>timers := (timers s)(h := None)\<rparr>)) tok = Some r"
    and "timerId (heap (s\<lparr>timers := (timers s)(h := None)\<rparr>) r) = Some h'"
  then show "h' < nextTimer (s\<lparr>timers := (timers s)(h := None)\<rparr>)"
    using timers_okD(7) [OF assms, of tok r h'] by simp
next
  fix t1 t2 r1 r2 h'
  assume "map_of (symbolStates (s\<lparr>timers := (timers s)(h := None)\<rparr>)) t1 = Some r1"
    and "map_of (symbolStates (s\<lparr>timers := (timers s)(h := None)\<rparr>)) t2 = Some r2"
    and "timerId (heap (s\<lparr>timers := (timers s)(h := None)\<rparr>) r1) = Some h'"
    and "timerId (heap (s\<lparr>timers := (timers s)(h := None)\<rparr>) r2) = Some h'"
  then show "t1 = t2"
    using timers_okD(8) [OF assms, of t1 r1 t2 r2 h'] by simp
qed (use timers_okD(1-3) [OF assms] in \<open>simp_all\<close>)

lemma timers_ok_modify:
  assumes "timers_ok s" and "\<And>state. timerId (f state) = timerId state"
  shows "timers_ok (modify r f s)"
  using assms(1)
  by (rule timers_ok_same_view) (simp_all add: modify_def assms(2))

lemma sounds_ok_modify:
  assumes "sounds_ok s" and "\<And>state. oscillator (f state) = oscillator state"
  shows "sounds_ok (modify r f s)"
  using assms(1)
  by (rule sounds_ok_same_view) (simp_all add: modify_def assms(2))

lemma cancelTimer_fields [simp]:
  "symbolStates (cancelTimer r s) = symbolStates s"
  "nextRef (cancelTimer r s) = nextRef s"
  "nextTimer (cancelTimer r s) = nextTimer s"
  "configurations (cancelTimer r s) = configurations s"
  "inactivityAlerts (cancelTimer r s) = inactivityAlerts s"
  "inactiveSymbols (cancelTimer r s) = inactiveSymbols s"
  "audioContext (cancelTimer r s) = audioContext s"
  "nextNode (cancelTimer r s) = nextNode s"
  "playing (cancelTimer r s) = playing s"
  "oscillator (heap (cancelTimer r s) r') = oscillator (heap s r')"
  "baselinePrice (heap (cancelTimer r s) r') = baselinePrice (heap s r')"
  "priceHistory (heap (cancelTimer r s) r') = priceHistory (heap s r')"
  "timerId (heap (cancelTimer r s) r) = None"
  "r' \<noteq> r \<Longrightarrow> timerId (heap (cancelTimer r s) r') = timerId (heap s r')"
  by (simp_all add: cancelTimer_def modify_def split: option.splits)

lemma cancelTimer_timers:
  "timers (cancelTimer r s) h =
     (if timerId (heap s r) = Some h then None else timers s h)"
  by (simp add: cancelTimer_def modify_def split: option.splits)

lemma timers_ok_cancelTimer:
  assumes "timers_ok s"
  shows "timers_ok (cancelTimer r s)"
proof (rule timers_okI)
  show "distinct (map fst (symbolStates (cancelTimer r s)))"
    using timers_okD(1) [OF assms] by simp
next
  fix tok r'
  assume "map_of (symbolStates (cancelTimer r s)) tok = Some r'"
  then show "r' < nextRef (cancelTimer r s)" using timers_okD(2) [OF assms] by simp
next
  fix tok tok' r'
  assume "map_of (symbolStates (cancelTimer r s)) tok = Some r'"
    and "map_of (symbolStates (cancelTimer r s)) tok' = Some r'"
  then show "tok = tok'" using timers_okD(3) [OF assms] by simp
next
  fix h t
  assume p: "timers (cancelTimer r s) h = Some t"
  then have old: "timers s h = Some t" and ne: "timerId (heap s r) \<noteq> Some h"
    by (simp_all add: cancelTimer_timers split: if_splits)
  show "h < nextTimer (cancelTimer r s)" using timers_okD(4) [OF assms old] by simp
  show "map_of (symbolStates (cancelTimer r s)) (instrument_token (timer_tick t)) = Some (timer_state t)"
    using timers_okD(5) [OF assms old] by simp
  have "timer_state t \<noteq> r" using timers_okD(6) [OF assms old] ne by auto
  then show "timerId (heap (cancelTimer r s) (timer_state t)) = Some h"
    using timers_okD(6) [OF assms old] by simp
next
  fix tok r1 h
  assume l: "map_of (symbolStates (cancelTimer r s)) tok = Some r1"
    and i: "timerId (heap (cancelTimer r s) r1) = Some h"
  have "r1 \<noteq> r" using i by auto
  then show "h < nextTimer (cancelTimer r s)"
    using l i timers_okD(7) [OF assms, of tok r1 h] by simp
next
  fix t1 t2 r1 r2 h
  assume l1: "map_of (symbolStates (cancelTimer r s)) t1 = Some r1"
    and l2: "map_of (symbolStates (cancelTimer r s)) t2 = Some r2"
    and i1: "timerId (heap (cancelTimer r s) r1) = Some h"
    and i2: "timerId (heap (cancelTimer r s) r2) = Some h"
  have "r1 \<noteq> r" and "r2 \<noteq> r" using i1 i2 by auto
  then show "t1 = t2"
    using l1 l2 i1 i2 timers_okD(8) [OF assms, of t1 r1 t2 r2 h] by simp
qed

lemma sounds_ok_cancelTimer: "sounds_ok s \<Longrightarrow> sounds_ok (cancelTimer r s)"
  by (erule sounds_ok_same_view) simp_all

lemma resetInactivityTimer_fields [simp]:
  "symbolStates (resetInactivityTimer tick config r clk s) = symbolStates s"
  "nextRef (resetInactivityTimer tick config r clk s) = nextRef s"
  "nextTimer (resetInactivityTimer tick config r clk s) = nextTimer s + 1"
  "configurations (resetInactivityTimer tick config r clk s) = configurations s"
  "inactivityAlerts (resetInactivityTimer tick config r clk s) = inactivityAlerts s"
  "inactiveSymbols (resetInactivityTimer tick config r clk s) = inactiveSymbols s"
  "audioContext (resetInactivityTimer tick config r clk s) = audioContext s"
  "nextNode (resetInactivityTimer tick config r clk s) = nextNode s"
  "playing (resetInactivityTimer tick config r clk s) = playing s"
  "oscillator (heap (resetInactivityTimer tick config r clk s) r') = oscillator (heap s r')"
  "baselinePrice (heap (resetInactivityTimer tick config r clk s) r') = baselinePrice (heap s r')"
  "lastMarketStatusCheck (heap (resetInactivityTimer tick config r clk s) r') = lastMarketStatusCheck (heap s r')"
  "wasMarketOpen (heap (resetInactivityTimer tick config r clk s) r') = wasMarketOpen (heap s r')"
  "timerId (heap (resetInactivityTimer tick config r clk s) r) = Some (nextTimer s)"
  "priceHistory (heap (resetInactivityTimer tick config r clk s) r) = [(last_price tick, nowMs clk)]"
  "r' \<noteq> r \<Longrightarrow> timerId (heap (resetInactivityTimer tick config r clk s) r') = timerId (heap s r')"
  "r' \<noteq> r \<Longrightarrow> priceHistory (heap (resetInactivityTimer tick config r clk s) r') = priceHistory (heap s r')"
  by (simp_all add: resetInactivityTimer_def modify_def Let_def split: option.splits)

lemma resetInactivityTimer_timers:
  "timers (resetInactivityTimer tick config r clk s) h =
     (if h = nextTimer s
      then Some \<lparr>timer_tick = tick, timer_config = config, timer_state = r,
                 timer_setAt = nowMs clk, timer_delay = duration config * 1000\<rparr>
      else if timerId (heap s r) = Some h then None else timers s h)"
  by (simp add: resetInactivityTimer_def modify_def Let_def split: option.splits)

lemma timers_ok_resetInactivityTimer:
  assumes "timers_ok s" and look: "map_of (symbolStates s) (instrument_token tick) = Some r"
  shows "timers_ok (resetInactivityTimer tick config r clk s)"
proof (rule timers_okI)
  show "distinct (map fst (symbolStates (resetInactivityTimer tick config r clk s)))"
    using timers_okD(1) [OF assms(1)] by simp
next
  fix tok r'
  assume "map_of (symbolStates (resetInactivityTimer tick config r clk s)) tok = Some r'"
  then show "r' < nextRef (resetInactivityTimer tick config r clk s)"
    using timers_okD(2) [OF assms(1)] by simp
next
  fix tok tok' r'
  assume "map_of (symbolStates (resetInactivityTimer tick config r clk s)) tok = Some r'"
    and "map_of (symbolStates (resetInactivityTimer tick config r clk s)) tok' = Some r'"
  then show "tok = tok'" using timers_okD(3) [OF assms(1)] by simp
next
  fix h t
  assume p: "timers (resetInactivityTimer tick config r clk s) h = Some t"
  show "h < nextTimer (resetInactivityTimer tick config r clk s)"
    using p timers_okD(4) [OF assms(1), of h t]
    by (auto simp add: resetInactivityTimer_timers split: if_splits)
  show "map_of (symbolStates (resetInactivityTimer tick config r clk s))
          (instrument_token (timer_tick t)) = Some (timer_state t)"
    using p timers_okD(5) [OF assms(1), of h t] look
    by (auto simp add: resetInactivityTimer_timers split: if_splits)
  show "timerId (heap (resetInactivityTimer tick config r clk s) (timer_state t)) = Some h"
  proof (cases "h = nextTimer s")
    case True
    then show ?thesis using p by (auto simp add: resetInactivityTimer_timers)
  next
    case False
    then have old: "timers s h = Some t" and ne: "timerId (heap s r) \<noteq> Some h"
      using p by (simp_all add: resetInactivityTimer_timers split: if_splits)
    have "timer_state t \<noteq> r" using timers_okD(6) [OF assms(1) old] ne by auto
    then show ?thesis using timers_okD(6) [OF assms(1) old] by simp
  qed
next
  fix tok r1 h
  assume l: "map_of (symbolStates (resetInactivityTimer tick config r clk s)) tok = Some r1"
    and i: "timerId (heap (resetInactivityTimer tick config r clk s) r1) = Some h"
  show "h < nextTimer (resetInactivityTimer tick config r clk s)"
  proof (cases "r1 = r")
    case True
    then show ?thesis using i by simp
  next
    case False
    then show ?thesis using l i timers_okD(7) [OF assms(1), of tok r1 h] by simp
  qed
next
  fix t1 t2 r1 r2 h
  assume l1: "map_of (symbolStates (resetInactivityTimer tick config r clk s)) t1 = Some r1"
    and l2: "map_of (symbolStates (resetInactivityTimer tick config r clk s)) t2 = Some r2"
    and i1: "timerId (heap (resetInactivityTimer tick config r clk s) r1) = Some h"
    and i2: "timerId (heap (resetInactivityTimer tick config r clk s) r2) = Some h"
  have m1: "map_of (symbolStates s) t1 = Some r1" and m2: "map_of (symbolStates s) t2 = Some r2"
    using l1 l2 by simp_all
  have stale: "\<And>t' r'. map_of (symbolStates s) t' = Some r' \<Longrightarrow> r' \<noteq> r
      \<Longrightarrow> timerId (heap (resetInactivityTimer tick config r clk s) r') \<noteq> Some (nextTimer s)"
    using timers_okD(7) [OF assms(1)] by fastforce
  show "t1 = t2"
  proof (cases "r1 = r")
    case True
    then have h: "h = nextTimer s" using i1 by simp
    have "r2 = r" using stale [OF m2] i2 h by blast
    then show ?thesis using True m1 m2 timers_okD(3) [OF assms(1)] by blast
  next
    case False
    have "r2 \<noteq> r"
    proof
      assume "r2 = r"
      then have "h = nextTimer s" using i2 by simp
      then show False using stale [OF m1 False] i1 by simp
    qed
    then show ?thesis
      using False m1 m2 i1 i2 timers_okD(8) [OF assms(1), of t1 r1 t2 r2 h] by simp
  qed
qed

lemma sounds_ok_resetInactivityTimer:
  "sounds_ok s \<Longrightarrow> sounds_ok (resetInactivityTimer tick config r clk s)"
  by (erule sounds_ok_same_view) simp_all

lemma clearSymbolState_fields [simp]:
  "symbolStates (clearSymbolState tok s) = AList.delete tok (symbolStates s)"
  "nextRef (clearSymbolState tok s) = nextRef s"
  "nextTimer (clearSymbolState tok s) = nextTimer s"
  "configurations (clearSymbolState tok s) = configurations s"
  "inactivityAlerts (clearSymbolState tok s) = inactivityAlerts s"
  "inactiveSymbols (clearSymbolState tok s) = inactiveSymbols s - {tok}"
  "audioContext (clearSymbolState tok s) = audioContext s"
  "nextNode (clearSymbolState tok s) = nextNode s"
  "timerId (heap (clearSymbolState tok s) r) = timerId (heap s r)"
  "baselinePrice (heap (clearSymbolState tok s) r) = baselinePrice (heap s r)"
  "priceHistory (heap (clearSymbolState tok s) r) = priceHistory (heap s r)"
  by (simp_all add: clearSymbolState_def Let_def split: option.splits)

lemma clearSymbolState_timers:
  "timers (clearSymbolState tok s) h =
     (case map_of (symbolStates s) tok of
        None \<Rightarrow> timers s h
      | Some r \<Rightarrow> if timerId (heap s r) = Some h then None else timers s h)"
  by (simp add: clearSymbolState_def Let_def split: option.splits)

lemma clearSymbolState_sound:
  "playing (clearSymbolState tok s) = playing (stopAlertSound tok s)"
  "oscillator (heap (clearSymbolState tok s) r) = oscillator (heap (stopAlertSound tok s) r)"
  by (simp_all add: clearSymbolState_def Let_def stopAlertSound_def modify_def split: option.splits)

lemma timers_ok_clearSymbolState:
  assumes "timers_ok s"
  shows "timers_ok (clearSymbolState tok s)"
proof (rule timers_okI)
  show "distinct (map fst (symbolStates (clearSymbolState tok s)))"
    using timers_okD(1) [OF assms] by (simp add: distinct_delete)
next
  fix tok' r
  assume "map_of (symbolStates (clearSymbolState tok s)) tok' = Some r"
  then have "map_of (symbolStates s) tok' = Some r"
    by (simp add: delete_conv' split: if_splits)
  then show "r < nextRef (clearSymbolState tok s)" using timers_okD(2) [OF assms] by simp
next
  fix t1 t2 r
  assume "map_of (symbolStates (clearSymbolState tok s)) t1 = Some r"
    and "map_of (symbolStates (clearSymbolState tok s)) t2 = Some r"
  then have "map_of (symbolStates s) t1 = Some r" and "map_of (symbolStates s) t2 = Some r"
    by (simp_all add: delete_conv' split: if_splits)
  then show "t1 = t2" using timers_okD(3) [OF assms] by blast
next
  fix h t
  assume p: "timers (clearSymbolState tok s) h = Some t"
  then have old: "timers s h = Some t"
    by (simp add: clearSymbolState_timers split: option.splits if_splits)
  show "h < nextTimer (clearSymbolState tok s)" using timers_okD(4) [OF assms old] by simp
  have ne: "instrument_token (timer_tick t) \<noteq> tok"
  proof
    assume e: "instrument_token (timer_tick t) = tok"
    then have "map_of (symbolStates s) tok = Some (timer_state t)"
      using timers_okD(5) [OF assms old] by simp
    then show False
      using p timers_okD(6) [OF assms old] by (simp add: clearSymbolState_timers)
  qed
  then show "map_of (symbolStates (clearSymbolState tok s)) (instrument_token (timer_tick t))
          = Some (timer_state t)"
    using timers_okD(5) [OF assms old] by (simp add: delete_conv')
  show "timerId (heap (clearSymbolState tok s) (timer_state t)) = Some h"
    using timers_okD(6) [OF assms old] by simp
next
  fix t1 r1 h
  assume "map_of (symbolStates (clearSymbolState tok s)) t1 = Some r1"
    and i: "timerId (heap (clearSymbolState tok s) r1) = Some h"
  then have "map_of (symbolStates s) t1 = Some r1"
    by (simp add: delete_conv' split: if_splits)
  then show "h < nextTimer (clearSymbolState tok s)"
    using i timers_okD(7) [OF assms, of t1 r1 h] by simp
next
  fix t1 t2 r1 r2 h
  assume "map_of (symbolStates (clearSymbolState tok s)) t1 = Some r1"
    and "map_of (symbolStates (clearSymbolState tok s)) t2 = Some r2"
    and i1: "timerId (heap (clearSymbolState tok s) r1) = Some h"
    and i2: "timerId (heap (clearSymbolState tok s) r2) = Some h"
  then have "map_of (symbolStates s) t1 = Some r1" and "map_of (symbolStates s) t2 = Some r2"
    by (simp_all add: delete_conv' split: if_splits)
  then show "t1 = t2"
    using i1 i2 timers_okD(8) [OF assms, of t1 r1 t2 r2 h] by simp
qed

lemma sounds_okD:
  assumes "sounds_ok s"
  shows "\<And>tok r osc. map_of (symbolStates s) tok = Some r \<Longrightarrow> oscillator (heap s r) = Some osc
           \<Longrightarrow> osc < nextNode s"
    and "\<And>tok r osc. map_of (symbolStates s) tok = Some r \<Longrightarrow> oscillator (heap s r) = Some osc
           \<Longrightarrow> osc \<in> playing s"
    and "\<And>osc. osc \<in> playing s \<Longrightarrow> \<exists>tok r. map_of (symbolStates s) tok = Some r
           \<and> oscillator (heap s r) = Some osc"
    and "\<And>t1 t2 r1 r2 osc. map_of (symbolStates s) t1 = Some r1 \<Longrightarrow>
           map_of (symbolStates s) t2 = Some r2 \<Longrightarrow> oscillator (heap s r1) = Some osc \<Longrightarrow>
           oscillator (heap s r2) = Some osc \<Longrightarrow> t1 = t2"
  using assms unfolding sounds_ok_def by blast+

lemma sounds_okI:
  assumes "\<And>tok r osc. map_of (symbolStates s) tok = Some r \<Longrightarrow> oscillator (heap s r) = Some osc
           \<Longrightarrow> osc < nextNode s"
    and "\<And>tok r osc. map_of (symbolStates s) tok = Some r \<Longrightarrow> oscillator (heap s r) = Some osc
           \<Longrightarrow> osc \<in> playing s"
    and "\<And>osc. osc \<in> playing s \<Longrightarrow> \<exists>tok r. map_of (symbolStates s) tok = Some r
           \<and> oscillator (heap s r) = Some osc"
    and "\<And>t1 t2 r1 r2 osc. map_of (symbolStates s) t1 = Some r1 \<Longrightarrow>
           map_of (symbolStates s) t2 = Some r2 \<Longrightarrow> oscillator (heap s r1) = Some osc \<Longrightarrow>
           oscillator (heap s r2) = Some osc \<Longrightarrow> t1 = t2"
  shows "sounds_ok s"
  using assms unfolding sounds_ok_def by blast

text \<open>After its sound is stopped, the object of a token holds no oscillator.\<close>

lemma stopAlertSound_silent:
  "map_of (symbolStates s) tok = Some r \<Longrightarrow> oscillator (heap (stopAlertSound tok s) r) = None"
  by (simp add: stopAlertSound_def modify_def split: option.splits)

lemma sounds_ok_clearSymbolState:
  assumes t: "timers_ok s" and so: "sounds_ok s"
  shows "sounds_ok (clearSymbolState tok s)"
proof -
  define s1 where "s1 = stopAlertSound tok s"
  have so1: "sounds_ok s1" unfolding s1_def by (rule sounds_ok_stopAlertSound [OF t so])
  have sy1: "symbolStates s1 = symbolStates s" by (simp add: s1_def)
  have silent: "\<And>r. map_of (symbolStates s1) tok = Some r \<Longrightarrow> oscillator (heap s1 r) = None"
    unfolding s1_def by (simp add: stopAlertSound_silent)
  have sub: "\<And>t1 r. map_of (AList.delete tok (symbolStates s1)) t1 = Some r
               \<Longrightarrow> map_of (symbolStates s1) t1 = Some r"
    by (simp add: delete_conv' split: if_splits)
  show ?thesis
  proof (rule sounds_okI)
    fix t1 r osc
    assume "map_of (symbolStates (clearSymbolState tok s)) t1 = Some r"
      and "oscillator (heap (clearSymbolState tok s) r) = Some osc"
    then have l: "map_of (symbolStates s1) t1 = Some r" and o: "oscillator (heap s1 r) = Some osc"
      using sub by (simp_all add: clearSymbolState_sound s1_def)
    show "osc < nextNode (clearSymbolState tok s)"
      using sounds_okD(1) [OF so1 l o] by (simp add: s1_def)
    show "osc \<in> playing (clearSymbolState tok s)"
      using sounds_okD(2) [OF so1 l o] by (simp add: clearSymbolState_sound s1_def)
  next
    fix osc
    assume "osc \<in> playing (clearSymbolState tok s)"
    then have "osc \<in> playing s1" by (simp add: clearSymbolState_sound s1_def)
    from sounds_okD(3) [OF so1 this] obtain t1 r
      where l: "map_of (symbolStates s1) t1 = Some r" and o: "oscillator (heap s1 r) = Some osc"
      by blast
    have "t1 \<noteq> tok" using silent l o by auto
    then have "map_of (symbolStates (clearSymbolState tok s)) t1 = Some r"
      using l by (simp add: delete_conv' sy1)
    then show "\<exists>t1 r. map_of (symbolStates (clearSymbolState tok s)) t1 = Some r
          \<and> oscillator (heap (clearSymbolState tok s) r) = Some osc"
      using o by (auto simp add: clearSymbolState_sound s1_def)
  next
    fix t1 t2 r1 r2 osc
    assume "map_of (symbolStates (clearSymbolState tok s)) t1 = Some r1"
      and "map_of (symbolStates (clearSymbolState tok s)) t2 = Some r2"
      and "oscillator (heap (clearSymbolState tok s) r1) = Some osc"
      and "oscillator (heap (clearSymbolState tok s) r2) = Some osc"
    then have "map_of (symbolStates s1) t1 = Some r1" and "map_of (symbolStates s1) t2 = Some r2"
      and "oscillator (heap s1 r1) = Some osc" and "oscillator (heap s1 r2) = Some osc"
      using sub by (simp_all add: clearSymbolState_sound s1_def)
    then show "t1 = t2" by (rule sounds_okD(4) [OF so1])
  qed
qed

text \<open>Creating the state object of a token that has none.\<close>

lemma timers_ok_create:
  assumes t: "timers_ok s" and none: "map_of (symbolStates s) tok = None"
    and fresh: "timerId state = None"
  shows "timers_ok (s\<lparr>heap := (heap s)(nextRef s := state),
                     symbolStates := AList.update tok (nextRef s) (symbolStates s),
                     nextRef := nextRef s + 1\<rparr>)"
proof (rule timers_okI)
  show "distinct (map fst (symbolStates (s\<lparr>heap := (heap s)(nextRef s := state),
                     symbolStates := AList.update tok (nextRef s) (symbolStates s),
                     nextRef := nextRef s + 1\<rparr>)))"
    using timers_okD(1) [OF t] by (simp add: distinct_update)
next
  fix tok' r
  assume "map_of (symbolStates (s\<lparr>heap := (heap s)(nextRef s := state),
                     symbolStates := AList.update tok (nextRef s) (symbolStates s),
                     nextRef := nextRef s + 1\<rparr>)) tok' = Some r"
  then have "r = nextRef s \<or> map_of (symbolStates s) tok' = Some r"
    by (simp add: update_conv' split: if_splits)
  then show "r < nextRef (s\<lparr>heap := (heap s)(nextRef s := state),
                     symbolStates := AList.update tok (nextRef s) (symbolStates s),
                     nextRef := nextRef s + 1\<rparr>)"
    using timers_okD(2) [OF t, of tok' r] by auto
next
  fix t1 t2 r
  assume "map_of (symbolStates (s\<lparr>heap := (heap s)(nextRef s := state),
                     symbolStates := AList.update tok (nextRef s) (symbolStates s),
                     nextRef := nextRef s + 1\<rparr>)) t1 = Some r"
    and "map_of (symbolStates (s\<lparr>heap := (heap s)(nextRef s := state),
                     symbolStates := AList.update tok (nextRef s) (symbolStates s),
                     nextRef := nextRef s + 1\<rparr>)) t2 = Some r"
  then have a: "(t1 = tok \<and> r = nextRef s) \<or> (t1 \<noteq> tok \<and> map_of (symbolStates s) t1 = Some r)"
    and b: "(t2 = tok \<and> r = nextRef s) \<or> (t2 \<noteq> tok \<and> map_of (symbolStates s) t2 = Some r)"
    by (simp_all add: update_conv' split: if_splits)
  show "t1 = t2"
    using a b timers_okD(2) [OF t, of t1 r] timers_okD(2) [OF t, of t2 r]
      timers_okD(3) [OF t, of t1 r t2] by auto
next
  fix h tm
  assume "timers (s\<lparr>heap := (heap s)(nextRef s := state),
                     symbolStates := AList.update tok (nextRef s) (symbolStates s),
                     nextRef := nextRef s + 1\<rparr>) h = Some tm"
  then have old: "timers s h = Some tm" by simp
  have l: "map_of (symbolStates s) (instrument_token (timer_tick tm)) = Some (timer_state tm)"
    by (rule timers_okD(5) [OF t old])
  then have ne: "instrument_token (timer_tick tm) \<noteq> tok" using none by auto
  have nr: "timer_state tm \<noteq> nextRef s" using timers_okD(2) [OF t l] by simp
  show "h < nextTimer (s\<lparr>heap := (heap s)(nextRef s := state),
                     symbolStates := AList.update tok (nextRef s) (symbolStates s),
                     nextRef := nextRef s + 1\<rparr>)"
    using timers_okD(4) [OF t old] by simp
  show "map_of (symbolStates (s\<lparr>heap := (heap s)(nextRef s := state),
                     symbolStates := AList.update tok (nextRef s) (symbolStates s),
                     nextRef := nextRef s + 1\<rparr>)) (instrument_token (timer_tick tm))
          = Some (timer_state tm)"
    using l ne by (simp add: update_conv')
  show "timerId (heap (s\<lparr>heap := (heap s)(nextRef s := state),
                     symbolStates := AList.update tok (nextRef s) (symbolStates s),
                     nextRef := nextRef s + 1\<rparr>) (timer_state tm)) = Some h"
    using timers_okD(6) [OF t old] nr by simp
next
  fix t1 r1 h
  assume "map_of (symbolStates (s\<lparr>heap := (heap s)(nextRef s := state),
                     symbolStates := AList.update tok (nextRef s) (symbolStates s),
                     nextRef := nextRef s + 1\<rparr>)) t1 = Some r1"
    and i: "timerId (heap (s\<lparr>heap := (heap s)(nextRef s := state),
                     symbolStates := AList.update tok (nextRef s) (symbolStates s),
                     nextRef := nextRef s + 1\<rparr>) r1) = Some h"
  then have "r1 \<noteq> nextRef s \<and> map_of (symbolStates s) t1 = Some r1 \<and> timerId (heap s r1) = Some h"
    using fresh by (auto simp add: update_conv' split: if_splits)
  then show "h < nextTimer (s\<lparr>heap := (heap s)(nextRef s := state),
                     symbolStates := AList.update tok (nextRef s) (symbolStates s),
                     nextRef := nextRef s + 1\<rparr>)"
    using timers_okD(7) [OF t, of t1 r1 h] by simp
next
  fix t1 t2 r1 r2 h
  assume "map_of (symbolStates (s\<lparr>heap := (heap s)(nextRef s := state),
                     symbolStates := AList.update tok (nextRef s) (symbolStates s),
                     nextRef := nextRef s + 1\<rparr>)) t1 = Some r1"
    and "map_of (symbolStates (s\<lparr>heap := (heap s)(nextRef s := state),
                     symbolStates := AList.update tok (nextRef s) (symbolStates s),
                     nextRef := nextRef s + 1\<rparr>)) t2 = Some r2"
    and "timerId (heap (s\<lparr>heap := (heap s)(nextRef s := state),
                     symbolStates := AList.update tok (nextRef s) (symbolStates s),
                     nextRef := nextRef s + 1\<rparr>) r1) = Some h"
    and "timerId (heap (s\<lparr>heap := (heap s)(nextRef s := state),
                     symbolStates := AList.update tok (nextRef s) (symbolStates s),
                     nextRef := nextRef s + 1\<rparr>) r2) = Some h"
  then have "r1 \<noteq> nextRef s \<and> map_of (symbolStates s) t1 = Some r1 \<and> timerId (heap s r1) = Some h"
    and "r2 \<noteq> nextRef s \<and> map_of (symbolStates s) t2 = Some r2 \<and> timerId (heap s r2) = Some h"
    using fresh by (auto simp add: update_conv' split: if_splits)
  then show "t1 = t2"
    using timers_okD(8) [OF t, of t1 r1 t2 r2 h] by simp
qed

lemma sounds_ok_create:
  assumes t: "timers_ok s" and so: "sounds_ok s" and none: "map_of (symbolStates s) tok = None"
    and fresh: "oscillator state = None"
  shows "sounds_ok (s\<lparr>heap := (heap s)(nextRef s := state),
                     symbolStates := AList.update tok (nextRef s) (symbolStates s),
                     nextRef := nextRef s + 1\<rparr>)"
proof -
  define s' where "s' = s\<lparr>heap := (heap s)(nextRef s := state),
                     symbolStates := AList.update tok (nextRef s) (symbolStates s),
                     nextRef := nextRef s + 1\<rparr>"
  have look: "\<And>t1 r. map_of (symbolStates s') t1 = Some r \<Longrightarrow>
      (t1 = tok \<and> r = nextRef s) \<or> (t1 \<noteq> tok \<and> r \<noteq> nextRef s \<and> map_of (symbolStates s) t1 = Some r)"
    using timers_okD(2) [OF t] by (auto simp add: s'_def update_conv' split: if_splits)
  have osc: "\<And>t1 r o1. map_of (symbolStates s') t1 = Some r \<Longrightarrow> oscillator (heap s' r) = Some o1
      \<Longrightarrow> map_of (symbolStates s) t1 = Some r \<and> oscillator (heap s r) = Some o1"
  proof -
    fix t1 r o1
    assume l: "map_of (symbolStates s') t1 = Some r" and o: "oscillator (heap s' r) = Some o1"
    from look [OF l] show "map_of (symbolStates s) t1 = Some r \<and> oscillator (heap s r) = Some o1"
    proof
      assume "t1 = tok \<and> r = nextRef s"
      then show ?thesis using o fresh by (simp add: s'_def)
    next
      assume "t1 \<noteq> tok \<and> r \<noteq> nextRef s \<and> map_of (symbolStates s) t1 = Some r"
      then show ?thesis using o by (simp add: s'_def)
    qed
  qed
  have keep: "\<And>t1 r o1. map_of (symbolStates s) t1 = Some r \<Longrightarrow> oscillator (heap s r) = Some o1
      \<Longrightarrow> map_of (symbolStates s') t1 = Some r \<and> oscillator (heap s' r) = Some o1"
  proof -
    fix t1 r o1
    assume l: "map_of (symbolStates s) t1 = Some r" and o: "oscillator (heap s r) = Some o1"
    have "t1 \<noteq> tok" using l none by auto
    moreover have "r \<noteq> nextRef s" using timers_okD(2) [OF t l] by simp
    ultimately show "map_of (symbolStates s') t1 = Some r \<and> oscillator (heap s' r) = Some o1"
      using l o by (simp add: s'_def update_conv')
  qed
  have "sounds_ok s'"
  proof (rule sounds_okI)
    fix t1 r o1
    assume l: "map_of (symbolStates s') t1 = Some r" and o: "oscillator (heap s' r) = Some o1"
    from osc [OF l o] sounds_okD(1) [OF so] show "o1 < nextNode s'" by (auto simp add: s'_def)
    from osc [OF l o] sounds_okD(2) [OF so] show "o1 \<in> playing s'" by (auto simp add: s'_def)
  next
    fix o1
    assume "o1 \<in> playing s'"
    then have "o1 \<in> playing s" by (simp add: s'_def)
    from sounds_okD(3) [OF so this] keep
    show "\<exists>t1 r. map_of (symbolStates s') t1 = Some r \<and> oscillator (heap s' r) = Some o1"
      by blast
  next
    fix t1 t2 r1 r2 o1
    assume "map_of (symbolStates s') t1 = Some r1" and "map_of (symbolStates s') t2 = Some r2"
      and "oscillator (heap s' r1) = Some o1" and "oscillator (heap s' r2) = Some o1"
    then have "map_of (symbolStates s) t1 = Some r1 \<and> oscillator (heap s r1) = Some o1"
      and "map_of (symbolStates s) t2 = Some r2 \<and> oscillator (heap s r2) = Some o1"
      using osc by blast+
    then show "t1 = t2" using sounds_okD(4) [OF so] by blast
  qed
  then show ?thesis by (simp add: s'_def)
qed

text \<open>Starting the sound of a token that has a state object.\<close>

lemma playAlertSound_fields [simp]:
  "symbolStates (playAlertSound tok s) = symbolStates s"
  "nextRef (playAlertSound tok s) = nextRef s"
  "timers (playAlertSound tok s) = timers s"
  "nextTimer (playAlertSound tok s) = nextTimer s"
  "timerId (heap (playAlertSound tok s) r) = timerId (heap s r)"
  "configurations (playAlertSound tok s) = configurations s"
  "inactivityAlerts (playAlertSound tok s) = inactivityAlerts s"
  "inactiveSymbols (playAlertSound tok s) = inactiveSymbols s"
  "audioContext (playAlertSound tok s) = audioContext s"
  "baselinePrice (heap (playAlertSound tok s) r) = baselinePrice (heap s r)"
  "priceHistory (heap (playAlertSound tok s) r) = priceHistory (heap s r)"
  by (simp_all add: playAlertSound_def modify_def Let_def split: option.splits)

lemma timers_ok_playAlertSound: "timers_ok s \<Longrightarrow> timers_ok (playAlertSound tok s)"
  by (erule timers_ok_same_view) simp_all

lemma sounds_ok_playAlertSound:
  assumes t: "timers_ok s" and so: "sounds_ok s" and look: "map_of (symbolStates s) tok = Some r"
  shows "sounds_ok (playAlertSound tok s)"
proof (cases "audioContext s")
  case False
  then show ?thesis using so by (simp add: playAlertSound_def)
next
  case True
  define s1 where "s1 = stopAlertSound tok s"
  define s' where "s' = playAlertSound tok s"
  have so1: "sounds_ok s1" unfolding s1_def by (rule sounds_ok_stopAlertSound [OF t so])
  have sy1: "symbolStates s1 = symbolStates s" by (simp add: s1_def)
  have silent: "oscillator (heap s1 r) = None"
    unfolding s1_def using look by (simp add: stopAlertSound_silent)
  have inj: "\<And>t1. map_of (symbolStates s) t1 = Some r \<Longrightarrow> t1 = tok"
    using timers_okD(3) [OF t _ look] by blast
  have eq: "s' = modify r (\<lambda>state. state\<lparr>oscillator := Some (nextNode s1), gainNode := Some (nextNode s1 + 1)\<rparr>)
                  (s1\<lparr>playing := insert (nextNode s1) (playing s1), nextNode := nextNode s1 + 2\<rparr>)"
    using True look by (simp add: s'_def playAlertSound_def Let_def s1_def)
  have sy: "symbolStates s' = symbolStates s" and nn: "nextNode s' = nextNode s1 + 2"
    and pl: "playing s' = insert (nextNode s1) (playing s1)"
    and hr: "oscillator (heap s' r) = Some (nextNode s1)"
    and ho: "\<And>r1. r1 \<noteq> r \<Longrightarrow> oscillator (heap s' r1) = oscillator (heap s1 r1)"
    by (simp_all add: eq modify_def sy1)
  have old: "\<And>t1 r1 o1. map_of (symbolStates s) t1 = Some r1 \<Longrightarrow> oscillator (heap s' r1) = Some o1
      \<Longrightarrow> (r1 = r \<and> t1 = tok \<and> o1 = nextNode s1)
          \<or> (r1 \<noteq> r \<and> oscillator (heap s1 r1) = Some o1 \<and> o1 < nextNode s1 \<and> o1 \<in> playing s1)"
  proof -
    fix t1 r1 o1
    assume l: "map_of (symbolStates s) t1 = Some r1" and o: "oscillator (heap s' r1) = Some o1"
    show "(r1 = r \<and> t1 = tok \<and> o1 = nextNode s1)
          \<or> (r1 \<noteq> r \<and> oscillator (heap s1 r1) = Some o1 \<and> o1 < nextNode s1 \<and> o1 \<in> playing s1)"
    proof (cases "r1 = r")
      case True
      then show ?thesis using l o hr inj by auto
    next
      case False
      then have o': "oscillator (heap s1 r1) = Some o1" using o ho by simp
      have l': "map_of (symbolStates s1) t1 = Some r1" using l sy1 by simp
      show ?thesis
        using False o' sounds_okD(1) [OF so1 l' o'] sounds_okD(2) [OF so1 l' o'] by simp
    qed
  qed
  have "sounds_ok s'"
  proof (rule sounds_okI)
    fix t1 r1 o1
    assume "map_of (symbolStates s') t1 = Some r1" and o: "oscillator (heap s' r1) = Some o1"
    then have l: "map_of (symbolStates s) t1 = Some r1" by (simp add: sy)
    from old [OF l o] show "o1 < nextNode s'" by (auto simp add: nn)
    from old [OF l o] show "o1 \<in> playing s'" by (auto simp add: pl)
  next
    fix o1
    assume "o1 \<in> playing s'"
    then have "o1 = nextNode s1 \<or> o1 \<in> playing s1" by (simp add: pl)
    then show "\<exists>t1 r1. map_of (symbolStates s') t1 = Some r1 \<and> oscillator (heap s' r1) = Some o1"
    proof
      assume "o1 = nextNode s1"
      then show ?thesis using look hr sy by auto
    next
      assume "o1 \<in> playing s1"
      from sounds_okD(3) [OF so1 this] obtain t1 r1
        where l: "map_of (symbolStates s1) t1 = Some r1" and o': "oscillator (heap s1 r1) = Some o1"
        by blast
      have "r1 \<noteq> r" using o' silent by auto
      then have "oscillator (heap s' r1) = Some o1" using o' ho by simp
      then show ?thesis using l sy sy1 by auto
    qed
  next
    fix t1 t2 r1 r2 o1
    assume "map_of (symbolStates s') t1 = Some r1" and "map_of (symbolStates s') t2 = Some r2"
      and o1: "oscillator (heap s' r1) = Some o1" and o2: "oscillator (heap s' r2) = Some o1"
    then have l1: "map_of (symbolStates s) t1 = Some r1" and l2: "map_of (symbolStates s) t2 = Some r2"
      by (simp_all add: sy)
    from old [OF l1 o1] old [OF l2 o2]
    show "t1 = t2"
    proof (elim disjE conjE)
      assume "oscillator (heap s1 r1) = Some o1" and "oscillator (heap s1 r2) = Some o1"
      then show ?thesis using sounds_okD(4) [OF so1, of t1 r1 t2 r2 o1] l1 l2 sy1 by simp
    qed simp_all
  qed
  then show ?thesis by (simp add: s'_def)
qed

lemma wf_same_view:
  assumes "wf s"
    and "symbolStates s' = symbolStates s" and "nextRef s' = nextRef s"
    and "timers s' = timers s" and "nextTimer s' = nextTimer s"
    and "nextNode s' = nextNode s" and "playing s' = playing s"
    and "\<And>r. timerId (heap s' r) = timerId (heap s r)"
    and "\<And>r. oscillator (heap s' r) = oscillator (heap s r)"
  shows "wf s'"
  using assms timers_ok_same_view [of s s'] sounds_ok_same_view [of s s']
  unfolding wf_def by blast

lemma wf_modify:
  assumes "wf s" and "\<And>state. timerId (f state) = timerId state"
    and "\<And>state. oscillator (f state) = oscillator state"
  shows "wf (modify r f s)"
  using assms timers_ok_modify [of s f r] sounds_ok_modify [of s f r] unfolding wf_def by blast

lemma wf_stopAlertSound: "wf s \<Longrightarrow> wf (stopAlertSound tok s)"
  unfolding wf_def using timers_ok_stopAlertSound sounds_ok_stopAlertSound by blast

lemma wf_cancelTimer: "wf s \<Longrightarrow> wf (cancelTimer r s)"
  unfolding wf_def using timers_ok_cancelTimer sounds_ok_cancelTimer by blast

lemma wf_clearSymbolState: "wf s \<Longrightarrow> wf (clearSymbolState tok s)"
  unfolding wf_def using timers_ok_clearSymbolState sounds_ok_clearSymbolState by blast

lemma wf_resetInactivityTimer:
  "wf s \<Longrightarrow> map_of (symbolStates s) (instrument_token tick) = Some r
     \<Longrightarrow> wf (resetInactivityTimer tick config r clk s)"
  unfolding wf_def using timers_ok_resetInactivityTimer sounds_ok_resetInactivityTimer by blast

lemma wf_playAlertSound:
  "wf s \<Longrightarrow> map_of (symbolStates s) tok = Some r \<Longrightarrow> wf (playAlertSound tok s)"
  unfolding wf_def using timers_ok_playAlertSound sounds_ok_playAlertSound by blast

lemma clearInactive_fields [simp]:
  "symbolStates (clearInactive snapshot tok s) = symbolStates s"
  "nextRef (clearInactive snapshot tok s) = nextRef s"
  "timers (clearInactive snapshot tok s) = timers s"
  "nextTimer (clearInactive snapshot tok s) = nextTimer s"
  "nextNode (clearInactive snapshot tok s) = nextNode s"
  "playing (clearInactive snapshot tok s) = playing s"
  "heap (clearInactive snapshot tok s) = heap s"
  "configurations (clearInactive snapshot tok s) = configurations s"
  "inactivityAlerts (clearInactive snapshot tok s) = inactivityAlerts s"
  "audioContext (clearInactive snapshot tok s) = audioContext s"
  by (simp_all add: clearInactive_def)

lemma wf_clearInactive: "wf s \<Longrightarrow> wf (clearInactive snapshot tok s)"
  by (erule wf_same_view) simp_all

lemma modify_fields [simp]:
  "symbolStates (modify r f s) = symbolStates s"
  "nextRef (modify r f s) = nextRef s"
  "timers (modify r f s) = timers s"
  "nextTimer (modify r f s) = nextTimer s"
  "nextNode (modify r f s) = nextNode s"
  "playing (modify r f s) = playing s"
  "configurations (modify r f s) = configurations s"
  "inactivityAlerts (modify r f s) = inactivityAlerts s"
  "inactiveSymbols (modify r f s) = inactiveSymbols s"
  "audioContext (modify r f s) = audioContext s"
  "heap (modify r f s) r = f (heap s r)"
  "r' \<noteq> r \<Longrightarrow> heap (modify r f s) r' = heap s r'"
  by (simp_all add: modify_def)

lemma triggerAlert_eq:
  "\<exists>alert. triggerAlert tick config r clk s =
     playAlertSound (instrument_token tick)
       (s\<lparr>inactivityAlerts := take 100 (alert # inactivityAlerts s),
          inactiveSymbols := insert (instrument_token tick) (inactiveSymbols s)\<rparr>)"
  unfolding triggerAlert_def Let_def split_beta by (rule exI, rule refl)

lemma wf_triggerAlert:
  assumes "wf s" and look: "map_of (symbolStates s) (instrument_token tick) = Some r'"
  shows "wf (triggerAlert tick config r clk s)"
proof -
  obtain alert where eq: "triggerAlert tick config r clk s =
     playAlertSound (instrument_token tick)
       (s\<lparr>inactivityAlerts := take 100 (alert # inactivityAlerts s),
          inactiveSymbols := insert (instrument_token tick) (inactiveSymbols s)\<rparr>)"
    using triggerAlert_eq by blast
  have "wf (s\<lparr>inactivityAlerts := take 100 (alert # inactivityAlerts s),
          inactiveSymbols := insert (instrument_token tick) (inactiveSymbols s)\<rparr>)"
    using assms(1) by (rule wf_same_view) simp_all
  then show ?thesis
    unfolding eq by (rule wf_playAlertSound) (simp add: look)
qed

lemma wf_restartMonitoring:
  assumes "wf s" and look: "map_of (symbolStates s) (instrument_token tick) = Some r"
  shows "wf (restartMonitoring snapshot tick config r clk s)"
proof -
  have "wf (modify r (\<lambda>state. state\<lparr>baselinePrice := last_price tick\<rparr>) s)"
    using assms(1) by (rule wf_modify) simp_all
  then have "wf (resetInactivityTimer tick config r clk
                   (modify r (\<lambda>state. state\<lparr>baselinePrice := last_price tick\<rparr>) s))"
    by (rule wf_resetInactivityTimer) (simp add: look)
  then show ?thesis
    unfolding restartMonitoring_def by (intro wf_stopAlertSound wf_clearInactive)
qed

lemma wf_existingState:
  assumes "wf s" and look: "map_of (symbolStates s) (instrument_token tick) = Some r"
  shows "wf (existingState snapshot tick config shouldAlert r clk s)"
proof -
  define s1 where "s1 = (if nowMs clk - lastMarketStatusCheck (heap s r) > 60000
     then modify r (\<lambda>state. state\<lparr>lastMarketStatusCheck := nowMs clk\<rparr>) s else s)"
  have w1: "wf s1" unfolding s1_def using assms(1) by (simp add: wf_modify)
  have l1: "map_of (symbolStates s1) (instrument_token tick) = Some r"
    unfolding s1_def using look by simp
  define s2 where "s2 = modify r (\<lambda>state. state\<lparr>wasMarketOpen := shouldAlert\<rparr>) s1"
  have w2: "wf s2" unfolding s2_def using w1 by (simp add: wf_modify)
  have l2: "map_of (symbolStates s2) (instrument_token tick) = Some r"
    unfolding s2_def using l1 by simp
  define s3 where "s3 = modify r (pushHistory tick (nowMs clk)) s1"
  have w3: "wf s3" unfolding s3_def using w1 by (simp add: wf_modify pushHistory_def)
  have l3: "map_of (symbolStates s3) (instrument_token tick) = Some r"
    unfolding s3_def using l1 by simp
  have eq: "existingState snapshot tick config shouldAlert r clk s =
     (if nowMs clk - lastMarketStatusCheck (heap s r) > 60000 \<and> wasMarketOpen (heap s1 r) \<noteq> shouldAlert
      then if shouldAlert then restartMonitoring snapshot tick config r clk s2
           else cancelTimer r (stopAlertSound (instrument_token tick) s2)
      else if \<not> shouldAlert \<and> respectMarketHours config
      then cancelTimer r (stopAlertSound (instrument_token tick) s1)
      else if \<bar>last_price tick - baselinePrice (heap s3 r)\<bar> > deviation config
      then restartMonitoring snapshot tick config r clk s3 else s3)"
    unfolding existingState_def Let_def s1_def s2_def s3_def by simp
  show ?thesis
    unfolding eq
    using w1 w2 w3 l2 l3
    by (simp add: wf_restartMonitoring wf_cancelTimer wf_stopAlertSound)
qed

lemma wf_create:
  assumes "wf s" and "map_of (symbolStates s) tok = None"
    and "timerId state = None" and "oscillator state = None"
  shows "wf (s\<lparr>heap := (heap s)(nextRef s := state),
               symbolStates := AList.update tok (nextRef s) (symbolStates s),
               nextRef := nextRef s + 1\<rparr>)"
  using assms timers_ok_create [of s tok state] sounds_ok_create [of s tok state]
  unfolding wf_def by blast

lemma wf_processTick:
  assumes "wf s"
  shows "wf (processTick snapshot clk tick s)"
proof (cases "configurations s (instrument_token tick)")
  case None
  then show ?thesis using assms by (simp add: processTick_def wf_clearSymbolState)
next
  case (Some config)
  show ?thesis
  proof (cases "enabled config")
    case False
    then show ?thesis using assms Some by (simp add: processTick_def wf_clearSymbolState)
  next
    case True
    show ?thesis
    proof (cases "map_of (symbolStates s) (instrument_token tick)")
      case (Some r)
      then show ?thesis
        using assms True \<open>configurations s (instrument_token tick) = Some config\<close>
        by (simp add: processTick_def wf_existingState)
    next
      case None
      define state where "state =
         \<lparr>baselinePrice = last_price tick, timerId = None,
          priceHistory = [(last_price tick, nowMs clk)],
          lastMarketStatusCheck = nowMs clk,
          wasMarketOpen = shouldAlertFor tick config clk,
          oscillator = None, gainNode = None\<rparr>"
      define s1 where "s1 = s\<lparr>heap := (heap s)(nextRef s := state),
               symbolStates := AList.update (instrument_token tick) (nextRef s) (symbolStates s),
               nextRef := nextRef s + 1\<rparr>"
      have w1: "wf s1"
        unfolding s1_def using assms None by (rule wf_create) (simp_all add: state_def)
      have l1: "map_of (symbolStates s1) (instrument_token tick) = Some (nextRef s)"
        by (simp add: s1_def update_conv')
      have eq: "processTick snapshot clk tick s =
          (if shouldAlertFor tick config clk
           then resetInactivityTimer tick config (nextRef s) clk s1 else s1)"
        using None True \<open>configurations s (instrument_token tick) = Some config\<close>
        by (simp add: processTick_def Let_def s1_def state_def)
      show ?thesis
        unfolding eq using w1 l1 by (simp add: wf_resetInactivityTimer)
    qed
  qed
qed

lemma processTick_configurations [simp]:
  "configurations (processTick snapshot clk tick s) = configurations s"
  by (simp add: processTick_def existingState_def restartMonitoring_def Let_def
      split: option.splits)

lemma wf_fold_processTick:
  "wf s \<Longrightarrow> wf (fold (processTick snapshot clk) tickList s)"
  by (induction tickList arbitrary: s) (simp_all add: wf_processTick)

lemma wf_effect: "wf s \<Longrightarrow> wf (effect tickArray clk s)"
  by (simp add: effect_def wf_fold_processTick)

lemma wf_timerFired:
  assumes "wf s"
  shows "wf (timerFired h clk s)"
proof (cases "timers s h")
  case None
  then show ?thesis using assms by (simp add: timerFired_def)
next
  case (Some t)
  define s1 where "s1 = s\<lparr>timers := (timers s)(h := None)\<rparr>"
  have "timers_ok s1" unfolding s1_def using assms by (simp add: wf_def timers_ok_remove)
  moreover have "sounds_ok s1"
    using assms unfolding wf_def s1_def by (elim conjE sounds_ok_same_view) simp_all
  ultimately have w1: "wf s1" by (simp add: wf_def)
  have "map_of (symbolStates s) (instrument_token (timer_tick t)) = Some (timer_state t)"
    using assms Some timers_okD(5) unfolding wf_def by blast
  then have l1: "map_of (symbolStates s1) (instrument_token (timer_tick t)) = Some (timer_state t)"
    by (simp add: s1_def)
  have eq: "timerFired h clk s =
     (if shouldAlertFor (timer_tick t) (timer_config t) clk
      then triggerAlert (timer_tick t) (timer_config t) (timer_state t) clk s1
      else clearSymbolState (instrument_token (timer_tick t))
             (stopAlertSound (instrument_token (timer_tick t)) s1))"
    using Some by (simp add: timerFired_def Let_def s1_def)
  show ?thesis
    unfolding eq using w1 l1
    by (simp add: wf_triggerAlert wf_clearSymbolState wf_stopAlertSound)
qed

lemma wf_updateConfiguration: "wf s \<Longrightarrow> wf (updateConfiguration tok config s)"
proof -
  assume "wf s"
  then have "wf (s\<lparr>configurations := (configurations s)(tok \<mapsto> config)\<rparr>)"
    by (rule wf_same_view) simp_all
  then show ?thesis unfolding updateConfiguration_def by (rule wf_clearSymbolState)
qed

lemma wf_fold_stopAlertSound:
  "wf s \<Longrightarrow> wf (fold (\<lambda>entry. stopAlertSound (fst entry)) entries s)"
  by (induction entries arbitrary: s) (simp_all add: wf_stopAlertSound)

lemma fold_stopAlertSound_fields [simp]:
  "symbolStates (fold (\<lambda>entry. stopAlertSound (fst entry)) entries s) = symbolStates s"
  "nextRef (fold (\<lambda>entry. stopAlertSound (fst entry)) entries s) = nextRef s"
  "timers (fold (\<lambda>entry. stopAlertSound (fst entry)) entries s) = timers s"
  "nextTimer (fold (\<lambda>entry. stopAlertSound (fst entry)) entries s) = nextTimer s"
  "nextNode (fold (\<lambda>entry. stopAlertSound (fst entry)) entries s) = nextNode s"
  "configurations (fold (\<lambda>entry. stopAlertSound (fst entry)) entries s) = configurations s"
  "inactivityAlerts (fold (\<lambda>entry. stopAlertSound (fst entry)) entries s) = inactivityAlerts s"
  "inactiveSymbols (fold (\<lambda>entry. stopAlertSound (fst entry)) entries s) = inactiveSymbols s"
  "timerId (heap (fold (\<lambda>entry. stopAlertSound (fst entry)) entries s) r) = timerId (heap s r)"
  "baselinePrice (heap (fold (\<lambda>entry. stopAlertSound (fst entry)) entries s) r) = baselinePrice (heap s r)"
  "priceHistory (heap (fold (\<lambda>entry. stopAlertSound (fst entry)) entries s) r) = priceHistory (heap s r)"
  by (induction entries arbitrary: s) simp_all

lemma wf_clearAllAlerts: "wf s \<Longrightarrow> wf (clearAllAlerts s)"
proof -
  assume "wf s"
  then have "wf (s\<lparr>inactivityAlerts := []\<rparr>)" by (rule wf_same_view) simp_all
  then have "wf (fold (\<lambda>entry. stopAlertSound (fst entry)) (symbolStates s) (s\<lparr>inactivityAlerts := []\<rparr>))"
    by (rule wf_fold_stopAlertSound)
  then show ?thesis
    unfolding clearAllAlerts_def by (rule wf_same_view) simp_all
qed

lemma wf_initAudio: "wf s \<Longrightarrow> wf (initAudio ok s)"
  by (erule wf_same_view) (simp_all add: initAudio_def)

lemma wf_step: "wf s \<Longrightarrow> wf (step e s)"
  by (cases e)
     (simp_all add: wf_effect wf_timerFired wf_updateConfiguration wf_clearAllAlerts wf_initAudio)

lemma wf_initialEngine: "wf initialEngine"
  by (simp add: wf_def timers_ok_def sounds_ok_def initialEngine_def)

lemma wf_fold_step: "wf s \<Longrightarrow> wf (fold step events s)"
  by (induction events arbitrary: s) (simp_all add: wf_step)

lemma wf_run: "wf (run events)"
  unfolding run_def by (rule wf_fold_step [OF wf_initialEngine])

subsection \<open>Handling one token leaves the others alone\<close>

lemma same_for_refl: "same_for tok s s"
  by (simp add: same_for_def)

lemma same_for_trans:
  assumes "same_for tok s s1" and "same_for tok s1 s2"
  shows "same_for tok s s2"
  using assms unfolding same_for_def by auto

text \<open>
  A step for token \<open>k\<close> that keeps \<open>symbolStates\<close>, mutates only the object of \<open>k\<close>,
  removes only the timer that object names and adds only timers of \<open>k\<close>.
\<close>

lemma same_for_local:
  assumes w: "timers_ok s" and ne: "k \<noteq> tok"
    and sy: "symbolStates s' = symbolStates s"
    and hp: "\<And>r. map_of (symbolStates s) k \<noteq> Some r \<Longrightarrow> heap s' r = heap s r"
    and tm: "\<And>h. timers s' h = timers s h
               \<or> (\<exists>r. map_of (symbolStates s) k = Some r \<and> timerId (heap s r) = Some h
                     \<and> timers s' h = None)
               \<or> (\<exists>t. timers s' h = Some t \<and> instrument_token (timer_tick t) = k
                     \<and> timers s h = None)"
    and al: "inactivityAlerts s' = inactivityAlerts s"
    and cf: "configurations s' = configurations s"
    and ia: "(tok \<in> inactiveSymbols s') = (tok \<in> inactiveSymbols s)"
  shows "same_for tok s s'"
  unfolding same_for_def
proof (intro conjI allI impI)
  show "map_of (symbolStates s') tok = map_of (symbolStates s) tok" by (simp add: sy)
next
  fix r
  assume l: "map_of (symbolStates s) tok = Some r"
  have "map_of (symbolStates s) k \<noteq> Some r"
    using timers_okD(3) [OF w _ l, of k] ne by blast
  then show "heap s' r = heap s r" by (rule hp)
next
  fix h and t :: Timer
  assume tk: "instrument_token (timer_tick t) = tok"
  show "(timers s' h = Some t) = (timers s h = Some t)"
  proof
    assume a: "timers s' h = Some t"
    from tm [of h] show "timers s h = Some t"
      using a tk ne by auto
  next
    assume a: "timers s h = Some t"
    have l: "map_of (symbolStates s) tok = Some (timer_state t)"
      using timers_okD(5) [OF w a] tk by simp
    have i: "timerId (heap s (timer_state t)) = Some h" by (rule timers_okD(6) [OF w a])
    have no: "\<not> (\<exists>r. map_of (symbolStates s) k = Some r \<and> timerId (heap s r) = Some h)"
    proof
      assume "\<exists>r. map_of (symbolStates s) k = Some r \<and> timerId (heap s r) = Some h"
      then obtain r where "map_of (symbolStates s) k = Some r" and "timerId (heap s r) = Some h"
        by blast
      then have "k = tok" using timers_okD(8) [OF w _ l _ i] by blast
      then show False using ne by simp
    qed
    from tm [of h] show "timers s' h = Some t"
      using a no by auto
  qed
qed (simp_all add: al cf ia)

lemma same_for_stopAlertSound:
  "timers_ok s \<Longrightarrow> k \<noteq> tok \<Longrightarrow> same_for tok s (stopAlertSound k s)"
  by (rule same_for_local [where k = k])
     (auto simp add: stopAlertSound_def modify_def split: option.splits)

lemma same_for_modify:
  "timers_ok s \<Longrightarrow> k \<noteq> tok \<Longrightarrow> map_of (symbolStates s) k = Some r
     \<Longrightarrow> same_for tok s (modify r f s)"
  by (rule same_for_local [where k = k]) (auto simp add: modify_def)

lemma same_for_clearInactive:
  "k \<noteq> tok \<Longrightarrow> same_for tok s (clearInactive snapshot k s)"
  by (simp add: same_for_def clearInactive_def)

lemma same_for_cancelTimer:
  "timers_ok s \<Longrightarrow> k \<noteq> tok \<Longrightarrow> map_of (symbolStates s) k = Some r
     \<Longrightarrow> same_for tok s (cancelTimer r s)"
  by (rule same_for_local [where k = k])
     (auto simp add: cancelTimer_def modify_def split: option.splits)

lemma same_for_resetInactivityTimer:
  assumes w: "timers_ok s" and ne: "instrument_token tick \<noteq> tok"
    and l: "map_of (symbolStates s) (instrument_token tick) = Some r"
  shows "same_for tok s (resetInactivityTimer tick config r clk s)"
proof (rule same_for_local [where k = "instrument_token tick"])
  fix h
  have "timers s (nextTimer s) = None"
    using timers_okD(4) [OF w, of "nextTimer s"] by (cases "timers s (nextTimer s)") auto
  then show "timers (resetInactivityTimer tick config r clk s) h = timers s h
     \<or> (\<exists>r'. map_of (symbolStates s) (instrument_token tick) = Some r'
           \<and> timerId (heap s r') = Some h
           \<and> timers (resetInactivityTimer tick config r clk s) h = None)
     \<or> (\<exists>t. timers (resetInactivityTimer tick config r clk s) h = Some t
           \<and> instrument_token (timer_tick t) = instrument_token tick \<and> timers s h = None)"
    using l by (auto simp add: resetInactivityTimer_timers)
next
  fix r'
  assume "map_of (symbolStates s) (instrument_token tick) \<noteq> Some r'"
  then have "r' \<noteq> r" using l by auto
  then show "heap (resetInactivityTimer tick config r clk s) r' = heap s r'"
    by (simp add: resetInactivityTimer_def modify_def Let_def split: option.splits)
qed (use w ne in simp_all)

lemma same_for_clearSymbolState:
  assumes w: "timers_ok s" and ne: "k \<noteq> tok"
  shows "same_for tok s (clearSymbolState k s)"
  unfolding same_for_def
proof (intro conjI allI impI)
  show "map_of (symbolStates (clearSymbolState k s)) tok = map_of (symbolStates s) tok"
    using ne by (simp add: delete_conv')
next
  fix r
  assume l: "map_of (symbolStates s) tok = Some r"
  have "map_of (symbolStates s) k \<noteq> Some r"
    using timers_okD(3) [OF w _ l, of k] ne by blast
  then show "heap (clearSymbolState k s) r = heap s r"
    by (auto simp add: clearSymbolState_def Let_def stopAlertSound_def modify_def
        split: option.splits)
next
  fix h and t :: Timer
  assume tk: "instrument_token (timer_tick t) = tok"
  show "(timers (clearSymbolState k s) h = Some t) = (timers s h = Some t)"
  proof
    assume "timers (clearSymbolState k s) h = Some t"
    then show "timers s h = Some t"
      by (simp add: clearSymbolState_timers split: option.splits if_splits)
  next
    assume a: "timers s h = Some t"
    have l: "map_of (symbolStates s) tok = Some (timer_state t)"
      using timers_okD(5) [OF w a] tk by simp
    have i: "timerId (heap s (timer_state t)) = Some h" by (rule timers_okD(6) [OF w a])
    have "\<And>r. map_of (symbolStates s) k = Some r \<Longrightarrow> timerId (heap s r) \<noteq> Some h"
      using timers_okD(8) [OF w _ l _ i] ne by blast
    then show "timers (clearSymbolState k s) h = Some t"
      using a by (simp add: clearSymbolState_timers split: option.splits)
  qed
qed (use ne in auto)

lemma same_for_create:
  assumes w: "timers_ok s" and ne: "k \<noteq> tok"
  shows "same_for tok s (s\<lparr>heap := (heap s)(nextRef s := state),
               symbolStates := AList.update k (nextRef s) (symbolStates s),
               nextRef := nextRef s + 1\<rparr>)"
  unfolding same_for_def
  using ne timers_okD(2) [OF w] by (auto simp add: update_conv')

lemma wf_timers_ok: "wf s \<Longrightarrow> timers_ok s"
  by (simp add: wf_def)

lemma same_for_restartMonitoring:
  assumes w: "wf s" and ne: "instrument_token tick \<noteq> tok"
    and l: "map_of (symbolStates s) (instrument_token tick) = Some r"
  shows "same_for tok s (restartMonitoring snapshot tick config r clk s)"
proof -
  define a where "a = modify r (\<lambda>state. state\<lparr>baselinePrice := last_price tick\<rparr>) s"
  define b where "b = resetInactivityTimer tick config r clk a"
  define c where "c = clearInactive snapshot (instrument_token tick) b"
  have wa: "wf a" unfolding a_def using w by (rule wf_modify) simp_all
  have la: "map_of (symbolStates a) (instrument_token tick) = Some r" by (simp add: a_def l)
  have wb: "wf b" unfolding b_def using wa la by (rule wf_resetInactivityTimer)
  have wc: "wf c" unfolding c_def using wb by (rule wf_clearInactive)
  have "same_for tok s a"
    unfolding a_def using wf_timers_ok [OF w] ne l by (rule same_for_modify)
  moreover have "same_for tok a b"
    unfolding b_def using wf_timers_ok [OF wa] ne la by (rule same_for_resetInactivityTimer)
  moreover have "same_for tok b c"
    unfolding c_def using ne by (rule same_for_clearInactive)
  moreover have "same_for tok c (stopAlertSound (instrument_token tick) c)"
    using wf_timers_ok [OF wc] ne by (rule same_for_stopAlertSound)
  ultimately have "same_for tok s (stopAlertSound (instrument_token tick) c)"
    by (blast intro: same_for_trans)
  then show ?thesis by (simp add: restartMonitoring_def c_def b_def a_def)
qed

lemma existingState_eq:
  "existingState snapshot tick config shouldAlert r clk s =
     (let s1 = (if nowMs clk - lastMarketStatusCheck (heap s r) > 60000
                then modify r (\<lambda>state. state\<lparr>lastMarketStatusCheck := nowMs clk\<rparr>) s else s)
      in if nowMs clk - lastMarketStatusCheck (heap s r) > 60000
            \<and> wasMarketOpen (heap s r) \<noteq> shouldAlert
         then if shouldAlert
              then restartMonitoring snapshot tick config r clk
                     (modify r (\<lambda>state. state\<lparr>wasMarketOpen := shouldAlert\<rparr>) s1)
              else cancelTimer r (stopAlertSound (instrument_token tick)
                     (modify r (\<lambda>state. state\<lparr>wasMarketOpen := shouldAlert\<rparr>) s1))
         else if \<not> shouldAlert \<and> respectMarketHours config
         then cancelTimer r (stopAlertSound (instrument_token tick) s1)
         else if \<bar>last_price tick - baselinePrice (heap s r)\<bar> > deviation config
         then restartMonitoring snapshot tick config r clk
                (modify r (pushHistory tick (nowMs clk)) s1)
         else modify r (pushHistory tick (nowMs clk)) s1)"
  by (simp add: existingState_def Let_def pushHistory_def)

lemma same_for_existingState:
  assumes w: "wf s" and ne: "instrument_token tick \<noteq> tok"
    and l: "map_of (symbolStates s) (instrument_token tick) = Some r"
  shows "same_for tok s (existingState snapshot tick config shouldAlert r clk s)"
proof -
  define s1 where "s1 = (if nowMs clk - lastMarketStatusCheck (heap s r) > 60000
     then modify r (\<lambda>state. state\<lparr>lastMarketStatusCheck := nowMs clk\<rparr>) s else s)"
  define s2 where "s2 = modify r (\<lambda>state. state\<lparr>wasMarketOpen := shouldAlert\<rparr>) s1"
  define s3 where "s3 = modify r (pushHistory tick (nowMs clk)) s1"
  have w1: "wf s1" unfolding s1_def using w by (simp add: wf_modify)
  have l1: "map_of (symbolStates s1) (instrument_token tick) = Some r"
    unfolding s1_def using l by simp
  have f1: "same_for tok s s1"
    unfolding s1_def using same_for_modify [OF wf_timers_ok [OF w] ne l] same_for_refl by simp
  have w2: "wf s2" unfolding s2_def using w1 by (simp add: wf_modify)
  have l2: "map_of (symbolStates s2) (instrument_token tick) = Some r"
    unfolding s2_def using l1 by simp
  have f2: "same_for tok s s2"
    unfolding s2_def
    using same_for_trans [OF f1 same_for_modify [OF wf_timers_ok [OF w1] ne l1]] by simp
  have w3: "wf s3" unfolding s3_def using w1 by (simp add: wf_modify pushHistory_def)
  have l3: "map_of (symbolStates s3) (instrument_token tick) = Some r"
    unfolding s3_def using l1 by simp
  have f3: "same_for tok s s3"
    unfolding s3_def
    using same_for_trans [OF f1 same_for_modify [OF wf_timers_ok [OF w1] ne l1]] by simp
  have cancel: "\<And>x. wf x \<Longrightarrow> map_of (symbolStates x) (instrument_token tick) = Some r
      \<Longrightarrow> same_for tok s x
      \<Longrightarrow> same_for tok s (cancelTimer r (stopAlertSound (instrument_token tick) x))"
  proof -
    fix x
    assume wx: "wf x" and lx: "map_of (symbolStates x) (instrument_token tick) = Some r"
      and fx: "same_for tok s x"
    have a: "same_for tok x (stopAlertSound (instrument_token tick) x)"
      using wf_timers_ok [OF wx] ne by (rule same_for_stopAlertSound)
    have b: "same_for tok (stopAlertSound (instrument_token tick) x)
               (cancelTimer r (stopAlertSound (instrument_token tick) x))"
      by (rule same_for_cancelTimer [OF wf_timers_ok [OF wf_stopAlertSound [OF wx]] ne])
         (simp add: lx)
    show "same_for tok s (cancelTimer r (stopAlertSound (instrument_token tick) x))"
      using fx a b by (blast intro: same_for_trans)
  qed
  have restart: "\<And>x. wf x \<Longrightarrow> map_of (symbolStates x) (instrument_token tick) = Some r
      \<Longrightarrow> same_for tok s x
      \<Longrightarrow> same_for tok s (restartMonitoring snapshot tick config r clk x)"
    using same_for_restartMonitoring [OF _ ne] same_for_trans by blast
  have eq: "existingState snapshot tick config shouldAlert r clk s =
     (if nowMs clk - lastMarketStatusCheck (heap s r) > 60000 \<and> wasMarketOpen (heap s1 r) \<noteq> shouldAlert
      then if shouldAlert then restartMonitoring snapshot tick config r clk s2
           else cancelTimer r (stopAlertSound (instrument_token tick) s2)
      else if \<not> shouldAlert \<and> respectMarketHours config
      then cancelTimer r (stopAlertSound (instrument_token tick) s1)
      else if \<bar>last_price tick - baselinePrice (heap s3 r)\<bar> > deviation config
      then restartMonitoring snapshot tick config r clk s3 else s3)"
    unfolding existingState_def Let_def s1_def s2_def s3_def by simp
  show ?thesis
    unfolding eq
    using cancel [OF w1 l1 f1] cancel [OF w2 l2 f2] restart [OF w2 l2 f2] restart [OF w3 l3 f3] f3
    by simp
qed

lemma same_for_processTick:
  assumes w: "wf s" and ne: "instrument_token tick \<noteq> tok"
  shows "same_for tok s (processTick snapshot clk tick s)"
proof (cases "configurations s (instrument_token tick)")
  case None
  then show ?thesis
    using same_for_clearSymbolState [OF wf_timers_ok [OF w] ne] by (simp add: processTick_def)
next
  case (Some config)
  note cf = Some
  show ?thesis
  proof (cases "enabled config")
    case False
    then show ?thesis
      using cf same_for_clearSymbolState [OF wf_timers_ok [OF w] ne] by (simp add: processTick_def)
  next
    case True
    show ?thesis
    proof (cases "map_of (symbolStates s) (instrument_token tick)")
      case (Some r)
      then show ?thesis
        using True cf same_for_existingState [OF w ne Some] by (simp add: processTick_def)
    next
      case None
      define state where "state =
         \<lparr>baselinePrice = last_price tick, timerId = None,
          priceHistory = [(last_price tick, nowMs clk)],
          lastMarketStatusCheck = nowMs clk,
          wasMarketOpen = shouldAlertFor tick config clk,
          oscillator = None, gainNode = None\<rparr>"
      define s1 where "s1 = s\<lparr>heap := (heap s)(nextRef s := state),
               symbolStates := AList.update (instrument_token tick) (nextRef s) (symbolStates s),
               nextRef := nextRef s + 1\<rparr>"
      have w1: "wf s1"
        unfolding s1_def using w None by (rule wf_create) (simp_all add: state_def)
      have l1: "map_of (symbolStates s1) (instrument_token tick) = Some (nextRef s)"
        by (simp add: s1_def update_conv')
      have f1: "same_for tok s s1"
        unfolding s1_def using wf_timers_ok [OF w] ne by (rule same_for_create)
      have f2: "same_for tok s (resetInactivityTimer tick config (nextRef s) clk s1)"
        using f1 same_for_resetInactivityTimer [OF wf_timers_ok [OF w1] ne l1]
        by (blast intro: same_for_trans)
      have eq: "processTick snapshot clk tick s =
          (if shouldAlertFor tick config clk
           then resetInactivityTimer tick config (nextRef s) clk s1 else s1)"
        using None True cf by (simp add: processTick_def Let_def s1_def state_def)
      show ?thesis unfolding eq using f1 f2 by simp
    qed
  qed
qed

lemma same_for_fold_processTick:
  assumes "wf s" and "\<forall>tick \<in> set tickList. instrument_token tick \<noteq> tok"
  shows "same_for tok s (fold (processTick snapshot clk) tickList s)"
  using assms
proof (induction tickList arbitrary: s)
  case Nil
  then show ?case by (simp add: same_for_refl)
next
  case (Cons tick tickList)
  have a: "same_for tok s (processTick snapshot clk tick s)"
    using Cons.prems by (simp add: same_for_processTick)
  have b: "same_for tok (processTick snapshot clk tick s)
             (fold (processTick snapshot clk) tickList (processTick snapshot clk tick s))"
    using Cons.prems by (intro Cons.IH wf_processTick) simp_all
  show ?case using same_for_trans [OF a b] by simp
qed

subsection \<open>The latest tick of each token\<close>

lemma update_entries:
  "entry \<in> set (AList.update k v al) \<Longrightarrow> entry = (k, v) \<or> entry \<in> set al"
  by (induction al) (auto split: if_splits)

lemma latestStep_keys:
  assumes "distinct (map fst latest)"
    and "\<forall>entry \<in> set latest. instrument_token (snd entry) = fst entry"
  shows "distinct (map fst (latestStep tick latest))
     \<and> (\<forall>entry \<in> set (latestStep tick latest). instrument_token (snd entry) = fst entry)"
proof -
  have "\<forall>entry \<in> set (AList.update (instrument_token tick) tick latest).
          instrument_token (snd entry) = fst entry"
  proof
    fix entry
    assume "entry \<in> set (AList.update (instrument_token tick) tick latest)"
    then have "entry = (instrument_token tick, tick) \<or> entry \<in> set latest"
      by (rule update_entries)
    then show "instrument_token (snd entry) = fst entry" using assms(2) by auto
  qed
  then show ?thesis
    using assms by (auto simp add: latestStep_def distinct_update split: option.splits)
qed

lemma fold_latestStep_keys:
  assumes "distinct (map fst latest)"
    and "\<forall>entry \<in> set latest. instrument_token (snd entry) = fst entry"
  shows "distinct (map fst (fold latestStep tickArray latest))
     \<and> (\<forall>entry \<in> set (fold latestStep tickArray latest). instrument_token (snd entry) = fst entry)"
  using assms
proof (induction tickArray arbitrary: latest)
  case Nil
  then show ?case by simp
next
  case (Cons tick tickArray)
  from latestStep_keys [OF Cons.prems] Cons.IH [of "latestStep tick latest"]
  show ?case by simp
qed

lemma latestTicks_keys:
  "distinct (map fst (latestTicks tickArray))
   \<and> (\<forall>entry \<in> set (latestTicks tickArray). instrument_token (snd entry) = fst entry)"
  unfolding latestTicks_def by (rule fold_latestStep_keys) simp_all

text \<open>
  The latest tick of a token stands once in the list the effect walks, between ticks of
  other tokens.
\<close>

lemma latestTicks_split:
  assumes "map_of (latestTicks tickArray) tok = Some tick"
  shows "instrument_token tick = tok
     \<and> (\<exists>before after. map snd (latestTicks tickArray) = before @ tick # after
           \<and> (\<forall>other \<in> set before. instrument_token other \<noteq> tok)
           \<and> (\<forall>other \<in> set after. instrument_token other \<noteq> tok))"
proof -
  have d: "distinct (map fst (latestTicks tickArray))"
    and k: "\<forall>entry \<in> set (latestTicks tickArray). instrument_token (snd entry) = fst entry"
    using latestTicks_keys by blast+
  have mem: "(tok, tick) \<in> set (latestTicks tickArray)" using assms by (rule map_of_SomeD)
  then have tk: "instrument_token tick = tok" using k by auto
  from mem obtain xs ys where sp: "latestTicks tickArray = xs @ (tok, tick) # ys"
    by (auto simp add: in_set_conv_decomp)
  have nx: "tok \<notin> fst ` set xs" and ny: "tok \<notin> fst ` set ys"
    using d unfolding sp by auto
  have "\<forall>other \<in> set (map snd xs). instrument_token other \<noteq> tok"
    using k nx unfolding sp by force
  moreover have "\<forall>other \<in> set (map snd ys). instrument_token other \<noteq> tok"
    using k ny unfolding sp by force
  moreover have "map snd (latestTicks tickArray) = map snd xs @ tick # map snd ys"
    unfolding sp by simp
  ultimately show ?thesis using tk by blast
qed

end
